theory Spec2Isabelle
  imports Complex_Main "HOL-Library.AList" "HOL-Library.Word"
begin

unbundle bit_operations_syntax

section \<open>The storage controller (controller.js)\<close>

text \<open>
  The controller keeps two JavaScript \<open>Map\<close>s: \<open>registeredNodes\<close> (node id to node
  record) and \<open>fileLocations\<close> (file name to file entry). A \<open>Map\<close> iterates in insertion
  order, \<open>set\<close> on a present key replaces the value in place and on an absent key appends,
  \<open>delete\<close> removes the key: an association list with \<open>AList.update\<close>, \<open>AList.delete\<close>
  and \<open>map_of\<close>. The \<open>owners\<close> \<open>Set\<close> of a file entry is a list in insertion order.

  Console output and the broadcasts to dashboard sockets do not touch the two maps and
  are left out, and so is the best-effort update of \<open>data/users.json\<close>, whose failure the
  handlers catch and ignore. Node ids, file names, addresses and owners are strings.

  A handler runs without interruption up to its first \<open>await\<close>. \<open>register\<close>,
  \<open>heartbeat\<close>, \<open>locations\<close> and the sweep never wait. \<open>announce\<close> and \<open>deannounce\<close> wait
  only for the update of \<open>data/users.json\<close>, and only for a node with an owner:
  \<open>announce\<close> has finished with the two maps by then, \<open>deannounce\<close> has not (it deletes an
  emptied entry after the update). The functions \<open>announce\<close> and \<open>deannounce\<close> below are the
  handlers run to their end with no other handler in between; \<open>deannounce_at_await\<close> is
  the state of the two maps while \<open>deannounce\<close> waits.
\<close>

subsection \<open>Numbers\<close>

text \<open>
  Sizes and storage counters are JavaScript Numbers (binary64). The model has the Numbers
  with an integral value, \<open>NaN\<close> and the two infinities; \<open>Num 0\<close> stands for both zeros.
  Fractional values, and request fields that are not numbers, are outside the model.
  Time stamps are integers (milliseconds, below \<open>8.64e15\<close> in absolute value), so that
  their differences are exact.
\<close>

datatype number = Num int | NaN | Infinity | MinusInfinity

text \<open>The number of binary digits of a natural number.\<close>

fun bits :: "nat \<Rightarrow> nat" where
  "bits n = (if n = 0 then 0 else bits (n div 2) + 1)"

declare bits.simps [simp del]

text \<open>The magnitude a natural number is rounded to in binary64: itself below \<open>2 ^ 53\<close>,
  else the nearest multiple of \<open>2 ^ e\<close> for the \<open>e\<close> that leaves 53 digits, ties to the even
  multiple.\<close>

definition nearest :: "nat \<Rightarrow> nat" where
  "nearest a =
     (if a < 2 ^ 53 then a
      else let e = bits a - 53; q = a div 2 ^ e; r = a mod 2 ^ e
           in (if 2 * r < 2 ^ e \<or> (2 * r = 2 ^ e \<and> even q) then q else q + 1) * 2 ^ e)"

text \<open>The Number an exact integer result is rounded to; a magnitude of \<open>2 ^ 1024\<close> overflows.\<close>

definition number_of :: "int \<Rightarrow> number" where
  "number_of x =
     (let m = nearest (nat \<bar>x\<bar>)
      in if 2 ^ 1024 \<le> m then (if x < 0 then MinusInfinity else Infinity)
         else Num (if x < 0 then - int m else int m))"

text \<open>\<open>a + b\<close>, \<open>-a\<close> and \<open>a - b\<close> on Numbers.\<close>

fun js_add :: "number \<Rightarrow> number \<Rightarrow> number" where
  "js_add (Num a) (Num b) = number_of (a + b)"
| "js_add NaN b = NaN"
| "js_add a NaN = NaN"
| "js_add Infinity MinusInfinity = NaN"
| "js_add MinusInfinity Infinity = NaN"
| "js_add Infinity b = Infinity"
| "js_add a Infinity = Infinity"
| "js_add MinusInfinity b = MinusInfinity"
| "js_add a MinusInfinity = MinusInfinity"

fun js_neg :: "number \<Rightarrow> number" where
  "js_neg (Num a) = Num (- a)"
| "js_neg NaN = NaN"
| "js_neg Infinity = MinusInfinity"
| "js_neg MinusInfinity = Infinity"

definition js_sub :: "number \<Rightarrow> number \<Rightarrow> number" where
  "js_sub a b = js_add a (js_neg b)"

text \<open>\<open>Math.max(0, x)\<close>.\<close>

fun max_zero :: "number \<Rightarrow> number" where
  "max_zero (Num a) = Num (max 0 a)"
| "max_zero NaN = NaN"
| "max_zero Infinity = Infinity"
| "max_zero MinusInfinity = Num 0"

text \<open>A Number in a condition: \<open>0\<close> and \<open>NaN\<close> are falsy. \<open>x || 0\<close>.\<close>

fun truthy :: "number \<Rightarrow> bool" where
  "truthy (Num a) = (a \<noteq> 0)"
| "truthy NaN = False"
| "truthy Infinity = True"
| "truthy MinusInfinity = True"

definition or_zero :: "number \<Rightarrow> number" where
  "or_zero x = (if truthy x then x else Num 0)"

subsection \<open>State and handlers\<close>

record storage_info =
  total_bytes :: number
  used :: number

record node_record =
  address :: string
  port :: int
  online :: bool
  lastSeen :: int
  owner :: "string option"
  storage :: storage_info

record file_info =
  owners :: "string list"
  uploadTime :: int
  size_f :: number
  replicated :: bool

record controller =
  registeredNodes :: "(string \<times> node_record) list"
  fileLocations :: "(string \<times> file_info) list"

datatype location = Location string string int

text \<open>A reply: the HTTP status, the \<open>success\<close> flag and the message, or the node list
  of \<open>GET /api/locations/:filename\<close>.\<close>

datatype response = Json nat bool string | Nodes "location list"

definition NodeNotRegistered :: response where
  "NodeNotRegistered = Json 400 False ''Node not registered''"

text \<open>\<open>new StorageController\<close>: both maps empty.\<close>

definition new_controller :: controller where
  "new_controller = \<lparr>registeredNodes = [], fileLocations = []\<rparr>"

text \<open>\<open>port || 5001\<close>: a missing port and \<open>0\<close> are falsy.\<close>

definition or_default :: "int \<Rightarrow> int \<Rightarrow> int" where
  "or_default x d = (if x = 0 then d else x)"

text \<open>\<open>owner || null\<close>: a missing owner and the empty string are falsy.\<close>

definition owner_or_null :: "string option \<Rightarrow> string option" where
  "owner_or_null own = (case own of None \<Rightarrow> None | Some s \<Rightarrow> if s = [] then None else Some s)"

text \<open>\<open>Set.add\<close>: appends when absent.\<close>

definition set_add :: "'a \<Rightarrow> 'a list \<Rightarrow> 'a list" where
  "set_add x xs = (if x \<in> set xs then xs else xs @ [x])"

text \<open>\<open>POST /api/register\<close>.\<close>

definition register ::
  "string \<Rightarrow> string \<Rightarrow> int \<Rightarrow> string option \<Rightarrow> storage_info option \<Rightarrow> int \<Rightarrow> controller
    \<Rightarrow> response \<times> controller" where
  "register nid addr prt own stor now st =
     (Json 200 True (''Node '' @ nid @ '' registered successfully''),
      st\<lparr>registeredNodes :=
        AList.update nid
          \<lparr>address = addr, port = or_default prt 5001, online = True, lastSeen = now,
           owner = owner_or_null own,
           storage = (case stor of
                        Some s \<Rightarrow> \<lparr>total_bytes = or_zero (total_bytes s),
                                   used = or_zero (used s)\<rparr>
                      | None \<Rightarrow> \<lparr>total_bytes = Num 0, used = Num 0\<rparr>)\<rparr>
          (registeredNodes st)\<rparr>)"

text \<open>\<open>POST /api/heartbeat\<close>: an unknown id is ignored.\<close>

definition heartbeat :: "string \<Rightarrow> int \<Rightarrow> controller \<Rightarrow> response \<times> controller" where
  "heartbeat nid now st =
     (Json 200 True ''Heartbeat received'',
      case map_of (registeredNodes st) nid of
        Some node \<Rightarrow>
          st\<lparr>registeredNodes :=
            AList.update nid (node\<lparr>lastSeen := now, online := True\<rparr>) (registeredNodes st)\<rparr>
      | None \<Rightarrow> st)"

text \<open>\<open>POST /api/announce\<close>. \<open>fileInfo\<close> is the entry just created when the file is new,
  the entry found otherwise.\<close>

definition announce ::
  "string \<Rightarrow> string \<Rightarrow> number \<Rightarrow> int \<Rightarrow> controller \<Rightarrow> response \<times> controller" where
  "announce nid filename sz now st =
     (case map_of (registeredNodes st) nid of
        None \<Rightarrow> (NodeNotRegistered, st)
      | Some node \<Rightarrow>
          let fileInfo = (case map_of (fileLocations st) filename of
                            None \<Rightarrow> \<lparr>owners = [], uploadTime = now,
                                      size_f = or_zero sz, replicated = False\<rparr>
                          | Some fi \<Rightarrow> fi);
              alreadyOwner = (nid \<in> set (owners fileInfo));
              files = AList.update filename
                        (fileInfo\<lparr>owners := set_add nid (owners fileInfo)\<rparr>) (fileLocations st);
              nodes = (if \<not> alreadyOwner \<and> truthy sz
                       then AList.update nid
                              (node\<lparr>storage := (storage node)
                                 \<lparr>used := js_add (or_zero (used (storage node))) sz\<rparr>\<rparr>)
                              (registeredNodes st)
                       else registeredNodes st)
          in (Json 200 True (''File '' @ filename @ '' announced''),
              \<lparr>registeredNodes = nodes, fileLocations = files\<rparr>))"

text \<open>\<open>GET /api/locations/:filename\<close>: the owners that are registered and online, in the
  order of the owners set.\<close>

definition locate_owner :: "(string \<times> node_record) list \<Rightarrow> string \<Rightarrow> location option" where
  "locate_owner nodes ownerId =
     (case map_of nodes ownerId of
        Some node \<Rightarrow> if online node then Some (Location ownerId (address node) (port node))
                     else None
      | None \<Rightarrow> None)"

definition locations :: "string \<Rightarrow> controller \<Rightarrow> response \<times> controller" where
  "locations filename st =
     (Nodes (case map_of (fileLocations st) filename of
               Some fileInfo \<Rightarrow> List.map_filter (locate_owner (registeredNodes st)) (owners fileInfo)
             | None \<Rightarrow> []),
      st)"

text \<open>\<open>POST /api/deannounce\<close>.\<close>

definition deannounce ::
  "string \<Rightarrow> string \<Rightarrow> number \<Rightarrow> controller \<Rightarrow> response \<times> controller" where
  "deannounce nid filename sz st =
     (case map_of (registeredNodes st) nid of
        None \<Rightarrow> (NodeNotRegistered, st)
      | Some node \<Rightarrow>
         (case map_of (fileLocations st) filename of
            None \<Rightarrow> (Json 200 True ''File not tracked'', st)
          | Some fileInfo \<Rightarrow>
              (Json 200 True (''File '' @ filename @ '' deannounced for '' @ nid),
               if nid \<in> set (owners fileInfo)
               then
                 let owners' = removeAll nid (owners fileInfo);
                     nodes = (if truthy sz
                              then AList.update nid
                                     (node\<lparr>storage := (storage node)
                                        \<lparr>used := max_zero (js_sub (or_zero (used (storage node))) sz)\<rparr>\<rparr>)
                                     (registeredNodes st)
                              else registeredNodes st);
                     files = (if length owners' = 0
                              then AList.delete filename (fileLocations st)
                              else AList.update filename (fileInfo\<lparr>owners := owners'\<rparr>)
                                     (fileLocations st))
                 in \<lparr>registeredNodes = nodes, fileLocations = files\<rparr>
               else st)))"

text \<open>The liveness sweep, the callback of \<open>startHeartbeatChecker\<close>, run at time \<open>now\<close>.
  \<open>!!node.owner\<close> is false for \<open>null\<close> and for the empty string.\<close>

definition isPersonalNode :: "node_record \<Rightarrow> bool" where
  "isPersonalNode node = (case owner node of None \<Rightarrow> False | Some s \<Rightarrow> s \<noteq> [])"

definition timed_out :: "int \<Rightarrow> node_record \<Rightarrow> bool" where
  "timed_out now node \<longleftrightarrow> online node \<and> \<not> isPersonalNode node \<and> now - lastSeen node > 30000"

definition mark_offline :: "int \<Rightarrow> (string \<times> node_record) list \<Rightarrow> (string \<times> node_record) list" where
  "mark_offline now nodes =
     map (\<lambda>(nid, node). (nid, if timed_out now node then node\<lparr>online := False\<rparr> else node)) nodes"

definition hasOnlineOwner :: "(string \<times> node_record) list \<Rightarrow> file_info \<Rightarrow> bool" where
  "hasOnlineOwner nodes fileInfo =
     list_ex (\<lambda>ownerId. case map_of nodes ownerId of Some node \<Rightarrow> online node | None \<Rightarrow> False)
       (owners fileInfo)"

definition heartbeatChecker :: "int \<Rightarrow> controller \<Rightarrow> controller" where
  "heartbeatChecker now st =
     (let changed = list_ex (\<lambda>(nid, node). timed_out now node) (registeredNodes st);
          nodes = mark_offline now (registeredNodes st);
          files = (if changed
                   then filter (\<lambda>(filename, fileInfo). hasOnlineOwner nodes fileInfo)
                          (fileLocations st)
                   else fileLocations st)
      in \<lparr>registeredNodes = nodes, fileLocations = files\<rparr>)"

text \<open>\<open>POST /api/deannounce\<close> up to its first \<open>await\<close>. The handler waits (for
  \<open>fs.readFile\<close> of \<open>data/users.json\<close>) when it has removed the node from the owners set,
  the size is truthy and the node has an owner. The result is the state of the two maps
  during the wait: the owner is removed and the used storage lowered, and the check that
  deletes an emptied entry has not run yet. \<open>None\<close> when the handler does not wait.\<close>

definition deannounce_at_await :: "string \<Rightarrow> string \<Rightarrow> number \<Rightarrow> controller \<Rightarrow> controller option" where
  "deannounce_at_await nid filename sz st =
     (case map_of (registeredNodes st) nid of
        None \<Rightarrow> None
      | Some node \<Rightarrow>
         (case map_of (fileLocations st) filename of
            None \<Rightarrow> None
          | Some fileInfo \<Rightarrow>
              if nid \<in> set (owners fileInfo) \<and> truthy sz \<and> isPersonalNode node
              then Some
                \<lparr>registeredNodes =
                   AList.update nid
                     (node\<lparr>storage := (storage node)
                        \<lparr>used := max_zero (js_sub (or_zero (used (storage node))) sz)\<rparr>\<rparr>)
                     (registeredNodes st),
                 fileLocations =
                   AList.update filename
                     (fileInfo\<lparr>owners := removeAll nid (owners fileInfo)\<rparr>) (fileLocations st)\<rparr>
              else None))"

text \<open>The operations of the control plane, and runs of them from a state.\<close>

datatype operation =
    Register string string int "string option" "storage_info option" int
  | Heartbeat string int
  | Announce string string number int
  | Locations string
  | Deannounce string string number
  | Sweep int

fun exec :: "operation \<Rightarrow> controller \<Rightarrow> controller" where
  "exec (Register nid addr prt own stor now) st = snd (register nid addr prt own stor now st)"
| "exec (Heartbeat nid now) st = snd (heartbeat nid now st)"
| "exec (Announce nid filename sz now) st = snd (announce nid filename sz now st)"
| "exec (Locations filename) st = snd (locations filename st)"
| "exec (Deannounce nid filename sz) st = snd (deannounce nid filename sz st)"
| "exec (Sweep now) st = heartbeatChecker now st"

fun run :: "operation list \<Rightarrow> controller \<Rightarrow> controller" where
  "run [] st = st"
| "run (op # ops) st = run ops (exec op st)"

text \<open>Every entry of the index has an owner that is registered and online.\<close>

definition all_have_online_owner :: "controller \<Rightarrow> bool" where
  "all_have_online_owner st =
     list_all (\<lambda>(filename, fileInfo). hasOnlineOwner (registeredNodes st) fileInfo)
       (fileLocations st)"

text \<open>No entry of the index has an empty owners set.\<close>

definition no_empty_owners :: "controller \<Rightarrow> bool" where
  "no_empty_owners st = list_all (\<lambda>(filename, fileInfo). owners fileInfo \<noteq> []) (fileLocations st)"


text \<open>Observers of the state: the owners set of a file (empty when the file is untracked)
  and the used storage of a node.\<close>

definition owners_of :: "controller \<Rightarrow> string \<Rightarrow> string list" where
  "owners_of st filename =
     (case map_of (fileLocations st) filename of Some fileInfo \<Rightarrow> owners fileInfo | None \<Rightarrow> [])"

definition used_of :: "controller \<Rightarrow> string \<Rightarrow> number option" where
  "used_of st nid = map_option (\<lambda>node. used (storage node)) (map_of (registeredNodes st) nid)"

text \<open>No node record stores the empty string as its owner.\<close>

definition owners_normalised :: "controller \<Rightarrow> bool" where
  "owners_normalised st = list_all (\<lambda>(nid, node). owner node \<noteq> Some []) (registeredNodes st)"

section \<open>The chunk engine (storage.js)\<close>

text \<open>
  A \<open>Buffer\<close> is a list of bytes. The storage directory of a \<open>StorageManager\<close> is
  modelled by its content: the files of \<open>chunks/\<close> by chunk id, the manifests of
  \<open>metadata/\<close> by file name (a manifest is written and read back as JSON), and the
  files elsewhere (the file to split, the reassembled output) by path; the paths a
  caller gives lie outside the storage directory. The hash
  \<open>crypto.createHash('md5').update(data).digest('hex')\<close> is a parameter \<open>H\<close> of the two
  operations, and the time stamp of \<open>new Date()\<close> is a parameter \<open>now\<close>.

  Reading a file that does not exist fails with \<open>ENOENT\<close>; a file that exists can be
  read. Whether \<open>fs.writeFile\<close> succeeds for a target is up to the file system (the
  directory may be missing when \<open>initialize\<close> has not run, the name may be too long or
  name a missing subdirectory): the field \<open>writable\<close> says for which targets it does. An
  error thrown by a read or a write ends the operation at that point, as the \<open>throw\<close> in
  the \<open>catch\<close> blocks does.
\<close>

type_synonym buffer = "8 word list"

record chunk_info =
  index :: nat
  id_c :: string
  size_c :: nat
  hash :: string

record manifest =
  filename_m :: string
  originalSize :: nat
  chunkSize_m :: nat
  chunkCount :: nat
  chunks :: "chunk_info list"
  createdAt :: int
  reassembled :: bool
  reassembledAt :: "int option"

record storage_manager =
  basePath :: string
  chunkSize :: nat

datatype target = Chunk string | Manifest string | Plain string

record file_system =
  chunk_files :: "(string \<times> buffer) list"
  metadata_files :: "(string \<times> manifest) list"
  other_files :: "(string \<times> buffer) list"
  writable :: "target \<Rightarrow> bool"

datatype fs_error = ENOENT string | WriteFailed target | IntegrityCheckFailed nat

text \<open>The constructor: 1 MiB chunks.\<close>

definition new_StorageManager :: "string \<Rightarrow> storage_manager" where
  "new_StorageManager path = \<lparr>basePath = path, chunkSize = 1024 * 1024\<rparr>"

text \<open>\<open>Math.ceil(n / d)\<close> for a length \<open>n\<close> and a positive \<open>d\<close>: a \<open>Buffer\<close> has fewer than
  \<open>2 ^ 53\<close> bytes, and for such \<open>n\<close> the rounded quotient has the ceiling of the exact one.
  The chunk size is positive in every manager the constructor makes; for chunk size 0
  the source divides by zero, which this definition does not follow.\<close>

definition ceil_div :: "nat \<Rightarrow> nat \<Rightarrow> nat" where
  "ceil_div n d = (n + d - 1) div d"

text \<open>\<open>buf.slice(start, end)\<close>.\<close>

definition slice :: "buffer \<Rightarrow> nat \<Rightarrow> nat \<Rightarrow> buffer" where
  "slice buf start endpos = drop start (take endpos buf)"


text \<open>The decimal digits of a number, as a template string prints it.\<close>

definition digit_char :: "nat \<Rightarrow> char" where
  "digit_char n = ''0123456789'' ! n"

fun string_of_nat :: "nat \<Rightarrow> string" where
  "string_of_nat n =
     (if n < 10 then [digit_char n] else string_of_nat (n div 10) @ [digit_char (n mod 10)])"

declare string_of_nat.simps [simp del]

definition chunk_id :: "string \<Rightarrow> nat \<Rightarrow> string \<Rightarrow> string" where
  "chunk_id filename i chunkHash = filename @ ''_chunk_'' @ string_of_nat i @ ''_'' @ chunkHash"

text \<open>The loop of \<open>splitFile\<close> over the chunk indices: cut chunk \<open>i\<close>, hash it, write
  it under its id, record it. A failed write ends the loop with the chunks written so
  far on disk.\<close>

fun split_loop ::
  "(buffer \<Rightarrow> string) \<Rightarrow> nat \<Rightarrow> string \<Rightarrow> buffer \<Rightarrow> nat list \<Rightarrow> chunk_info list \<Rightarrow> file_system
    \<Rightarrow> (fs_error + chunk_info list) \<times> file_system" where
  "split_loop H csize filename fileBuffer [] chunkList fs = (Inr chunkList, fs)"
| "split_loop H csize filename fileBuffer (i # rest) chunkList fs =
     (let start = i * csize;
          endpos = min (start + csize) (length fileBuffer);
          chunkData = slice fileBuffer start endpos;
          chunkHash = H chunkData;
          chunkId = chunk_id filename i chunkHash
      in if writable fs (Chunk chunkId)
         then split_loop H csize filename fileBuffer rest
                (chunkList @ [\<lparr>index = i, id_c = chunkId, size_c = length chunkData,
                               hash = chunkHash\<rparr>])
                (fs\<lparr>chunk_files := AList.update chunkId chunkData (chunk_files fs)\<rparr>)
         else (Inl (WriteFailed (Chunk chunkId)), fs))"

definition splitFile ::
  "(buffer \<Rightarrow> string) \<Rightarrow> storage_manager \<Rightarrow> string \<Rightarrow> string \<Rightarrow> int \<Rightarrow> file_system
    \<Rightarrow> (fs_error + manifest) \<times> file_system" where
  "splitFile H mgr filePath filename now fs =
     (case map_of (other_files fs) filePath of
        None \<Rightarrow> (Inl (ENOENT filePath), fs)
      | Some fileBuffer \<Rightarrow>
          let fileSize = length fileBuffer;
              count = ceil_div fileSize (chunkSize mgr)
          in (case split_loop H (chunkSize mgr) filename fileBuffer [0..<count] [] fs of
                (Inl err, fs') \<Rightarrow> (Inl err, fs')
              | (Inr chunkList, fs') \<Rightarrow>
                  let metadata = \<lparr>filename_m = filename, originalSize = fileSize,
                                   chunkSize_m = chunkSize mgr, chunkCount = count,
                                   chunks = chunkList, createdAt = now, reassembled = False,
                                   reassembledAt = None\<rparr>
                  in if writable fs' (Manifest filename)
                     then (Inr metadata,
                           fs'\<lparr>metadata_files :=
                                 AList.update filename metadata (metadata_files fs')\<rparr>)
                     else (Inl (WriteFailed (Manifest filename)), fs')))"



text \<open>The bytes of chunk \<open>i\<close> of a file cut into chunks of \<open>csize\<close> bytes.\<close>

definition chunk_data :: "nat \<Rightarrow> buffer \<Rightarrow> nat \<Rightarrow> buffer" where
  "chunk_data csize fileBuffer i =
     slice fileBuffer (i * csize) (min (i * csize + csize) (length fileBuffer))"

text \<open>The manifest entry of chunk \<open>i\<close>.\<close>

definition chunk_entry :: "(buffer \<Rightarrow> string) \<Rightarrow> nat \<Rightarrow> string \<Rightarrow> buffer \<Rightarrow> nat \<Rightarrow> chunk_info" where
  "chunk_entry H csize filename fileBuffer i =
     \<lparr>index = i,
      id_c = chunk_id filename i (H (chunk_data csize fileBuffer i)),
      size_c = length (chunk_data csize fileBuffer i),
      hash = H (chunk_data csize fileBuffer i)\<rparr>"

text \<open>Reading a decimal numeral back.\<close>

definition digit_val :: "char \<Rightarrow> nat" where
  "digit_val c = of_char c - 48"

definition nat_of_string :: "string \<Rightarrow> nat" where
  "nat_of_string s = foldl (\<lambda>a c. 10 * a + digit_val c) 0 s"

section \<open>MD5, the hash of \<open>crypto.createHash('md5')\<close>\<close>

text \<open>
  The chunk engine takes its content hash from Node's \<open>crypto\<close> module. The engine is
  modelled for any hash function; the functions below follow RFC 1321 (the four
  auxiliary functions, the four rounds of sixteen operations with their word index,
  shift and constant, the padding) and give the hexadecimal digest that
  \<open>digest('hex')\<close> returns. A 32-bit word is a natural number below \<open>2 ^ 32\<close>, with the
  wrap-around written out as \<open>AND 0xffffffff\<close>.
\<close>

type_synonym md5_state = "nat \<times> nat \<times> nat \<times> nat"

definition not32 :: "nat \<Rightarrow> nat" where
  "not32 x = x XOR 0xffffffff"

definition rotl32 :: "nat \<Rightarrow> nat \<Rightarrow> nat" where
  "rotl32 x n = ((x * 2 ^ n) AND 0xffffffff) OR (x div 2 ^ (32 - n))"

definition md5_F :: "nat \<Rightarrow> nat \<Rightarrow> nat \<Rightarrow> nat" where
  "md5_F x y z = (x AND y) OR (not32 x AND z)"

definition md5_G :: "nat \<Rightarrow> nat \<Rightarrow> nat \<Rightarrow> nat" where
  "md5_G x y z = (x AND z) OR (y AND not32 z)"

definition md5_H :: "nat \<Rightarrow> nat \<Rightarrow> nat \<Rightarrow> nat" where
  "md5_H x y z = x XOR y XOR z"

definition md5_I :: "nat \<Rightarrow> nat \<Rightarrow> nat \<Rightarrow> nat" where
  "md5_I x y z = y XOR (x OR not32 z)"

text \<open>One operation: \<open>a = b + ((a + f(b,c,d) + x + k) <<< s)\<close>, then the four registers
  rotate.\<close>

definition md5_op :: "(nat \<Rightarrow> nat \<Rightarrow> nat \<Rightarrow> nat) \<Rightarrow> nat \<Rightarrow> nat \<Rightarrow> nat \<Rightarrow> md5_state \<Rightarrow> md5_state" where
  "md5_op f x s k st =
     (case st of (a, b, c, d) \<Rightarrow>
        (d, (b + rotl32 ((a + f b c d + x + k) AND 0xffffffff) s) AND 0xffffffff, b, c))"

definition md5_round1 :: "nat list \<Rightarrow> md5_state \<Rightarrow> md5_state" where
  "md5_round1 M =
     fold (\<lambda>(j, s, k). md5_op md5_F (M ! j) s k)
     [(0, 7, 0xd76aa478), (1, 12, 0xe8c7b756), (2, 17, 0x242070db), (3, 22, 0xc1bdceee),
      (4, 7, 0xf57c0faf), (5, 12, 0x4787c62a), (6, 17, 0xa8304613), (7, 22, 0xfd469501),
      (8, 7, 0x698098d8), (9, 12, 0x8b44f7af), (10, 17, 0xffff5bb1), (11, 22, 0x895cd7be),
      (12, 7, 0x6b901122), (13, 12, 0xfd987193), (14, 17, 0xa679438e), (15, 22, 0x49b40821)]"

definition md5_round2 :: "nat list \<Rightarrow> md5_state \<Rightarrow> md5_state" where
  "md5_round2 M =
     fold (\<lambda>(j, s, k). md5_op md5_G (M ! j) s k)
     [(1, 5, 0xf61e2562), (6, 9, 0xc040b340), (11, 14, 0x265e5a51), (0, 20, 0xe9b6c7aa),
      (5, 5, 0xd62f105d), (10, 9, 0x02441453), (15, 14, 0xd8a1e681), (4, 20, 0xe7d3fbc8),
      (9, 5, 0x21e1cde6), (14, 9, 0xc33707d6), (3, 14, 0xf4d50d87), (8, 20, 0x455a14ed),
      (13, 5, 0xa9e3e905), (2, 9, 0xfcefa3f8), (7, 14, 0x676f02d9), (12, 20, 0x8d2a4c8a)]"

definition md5_round3 :: "nat list \<Rightarrow> md5_state \<Rightarrow> md5_state" where
  "md5_round3 M =
     fold (\<lambda>(j, s, k). md5_op md5_H (M ! j) s k)
     [(5, 4, 0xfffa3942), (8, 11, 0x8771f681), (11, 16, 0x6d9d6122), (14, 23, 0xfde5380c),
      (1, 4, 0xa4beea44), (4, 11, 0x4bdecfa9), (7, 16, 0xf6bb4b60), (10, 23, 0xbebfbc70),
      (13, 4, 0x289b7ec6), (0, 11, 0xeaa127fa), (3, 16, 0xd4ef3085), (6, 23, 0x04881d05),
      (9, 4, 0xd9d4d039), (12, 11, 0xe6db99e5), (15, 16, 0x1fa27cf8), (2, 23, 0xc4ac5665)]"

definition md5_round4 :: "nat list \<Rightarrow> md5_state \<Rightarrow> md5_state" where
  "md5_round4 M =
     fold (\<lambda>(j, s, k). md5_op md5_I (M ! j) s k)
     [(0, 6, 0xf4292244), (7, 10, 0x432aff97), (14, 15, 0xab9423a7), (5, 21, 0xfc93a039),
      (12, 6, 0x655b59c3), (3, 10, 0x8f0ccc92), (10, 15, 0xffeff47d), (1, 21, 0x85845dd1),
      (8, 6, 0x6fa87e4f), (15, 10, 0xfe2ce6e0), (6, 15, 0xa3014314), (13, 21, 0x4e0811a1),
      (4, 6, 0xf7537e82), (11, 10, 0xbd3af235), (2, 15, 0x2ad7d2bb), (9, 21, 0xeb86d391)]"

definition le32 :: "8 word list \<Rightarrow> nat" where
  "le32 bs = foldr (\<lambda>b w. unat b + 256 * w) bs 0"

definition md5_words :: "8 word list \<Rightarrow> nat list" where
  "md5_words block = map (\<lambda>j. le32 (take 4 (drop (4 * j) block))) [0..<16]"

definition md5_block :: "nat list \<Rightarrow> md5_state \<Rightarrow> md5_state" where
  "md5_block M st =
     (case (st, md5_round4 M (md5_round3 M (md5_round2 M (md5_round1 M st)))) of
        ((a0, b0, c0, d0), (a, b, c, d)) \<Rightarrow>
          ((a0 + a) AND 0xffffffff, (b0 + b) AND 0xffffffff,
           (c0 + c) AND 0xffffffff, (d0 + d) AND 0xffffffff))"

definition bytes_le :: "nat \<Rightarrow> nat \<Rightarrow> nat list" where
  "bytes_le k n = map (\<lambda>j. (n div 256 ^ j) mod 256) [0..<k]"

definition md5_pad :: "8 word list \<Rightarrow> 8 word list" where
  "md5_pad msg =
     msg @ [0x80] @ replicate ((119 - length msg mod 64) mod 64) 0 @
     map of_nat (bytes_le 8 (8 * length msg))"

definition md5_init :: md5_state where
  "md5_init = (0x67452301, 0xefcdab89, 0x98badcfe, 0x10325476)"

definition md5_blocks :: "8 word list \<Rightarrow> 8 word list list" where
  "md5_blocks padded = map (\<lambda>k. take 64 (drop (64 * k) padded)) [0..<length padded div 64]"

definition md5_digest :: "8 word list \<Rightarrow> md5_state" where
  "md5_digest msg = fold md5_block (map md5_words (md5_blocks (md5_pad msg))) md5_init"

definition hex_digit :: "nat \<Rightarrow> char" where
  "hex_digit n = ''0123456789abcdef'' ! n"

definition hex_byte :: "nat \<Rightarrow> string" where
  "hex_byte b = [hex_digit (b div 16), hex_digit (b mod 16)]"

definition md5_hex :: "8 word list \<Rightarrow> string" where
  "md5_hex msg =
     (case md5_digest msg of
        (a, b, c, d) \<Rightarrow> concat (map hex_byte (concat (map (bytes_le 4) [a, b, c, d]))))"



subsection \<open>Example states of the controller\<close>

text \<open>Node \<open>A\<close> is a storage node without an owner, last seen at time 0; \<open>B\<close> is the same
  kind of node, last seen at 30 s; \<open>C\<close> is marked offline; \<open>P\<close> is a personal node.\<close>

definition node_A :: node_record where
  "node_A = \<lparr>address = ''10.0.0.1'', port = 5001, online = True, lastSeen = 0,
             owner = None, storage = \<lparr>total_bytes = Num 0, used = Num 0\<rparr>\<rparr>"

definition node_B :: node_record where
  "node_B = \<lparr>address = ''10.0.0.2'', port = 5002, online = True, lastSeen = 30000,
             owner = None, storage = \<lparr>total_bytes = Num 0, used = Num 0\<rparr>\<rparr>"

definition node_C :: node_record where
  "node_C = \<lparr>address = ''10.0.0.3'', port = 5003, online = False, lastSeen = 0,
             owner = None, storage = \<lparr>total_bytes = Num 0, used = Num 0\<rparr>\<rparr>"

definition node_P :: node_record where
  "node_P = \<lparr>address = ''10.0.0.9'', port = 5001, online = True, lastSeen = 0,
             owner = Some ''alice'', storage = \<lparr>total_bytes = Num 0, used = Num 0\<rparr>\<rparr>"

definition one_node :: controller where
  "one_node = \<lparr>registeredNodes = [(''A'', node_A)], fileLocations = []\<rparr>"

definition offline_node :: controller where
  "offline_node = \<lparr>registeredNodes = [(''C'', node_C)], fileLocations = []\<rparr>"

definition shared_files :: controller where
  "shared_files =
     \<lparr>registeredNodes = [(''A'', node_A), (''B'', node_B), (''C'', node_C)],
      fileLocations =
        [(''report.pdf'', \<lparr>owners = [''A''], uploadTime = 0, size_f = Num 3145728, replicated = False\<rparr>),
         (''notes.txt'', \<lparr>owners = [''A'', ''B'', ''C''], uploadTime = 0, size_f = Num 12, replicated = False\<rparr>)]\<rparr>"

text \<open>A run that ends with an entry whose only owner is offline: \<open>A\<close> registers, stops
  sending heartbeats and is marked offline by the sweep at 31 s, then announces a file.\<close>

definition stale_announce :: "operation list" where
  "stale_announce =
     [Register ''A'' ''10.0.0.1'' 5001 None None 0,
      Sweep 31000,
      Announce ''A'' ''report.pdf'' (Num 3145728) 32000]"

definition two_registrations :: "operation list" where
  "two_registrations =
     [Register ''A'' ''10.0.0.1'' 5001 None None 0,
      Register ''P'' ''10.0.0.9'' 5001 (Some ''alice'') None 0]"

text \<open>Runs for the storage counter: \<open>A\<close> has announced \<open>report.pdf\<close> before; \<open>A\<close> registers
  with a counter of \<open>2 ^ 53\<close>, of \<open>1\<close>, and of \<open>-5\<close>.\<close>

definition already_announced :: "operation list" where
  "already_announced =
     [Register ''A'' ''10.0.0.1'' 5001 None None 0,
      Announce ''A'' ''report.pdf'' (Num 3145728) 1000]"

definition registered_with :: "int \<Rightarrow> operation list" where
  "registered_with u =
     [Register ''A'' ''10.0.0.1'' 5001 None
        (Some \<lparr>total_bytes = Num 0, used = Num u\<rparr>) 0]"

text \<open>The personal node \<open>P\<close> is the only owner of \<open>notes.txt\<close>; \<open>A\<close> is registered too.\<close>

definition personal_upload :: "operation list" where
  "personal_upload =
     [Register ''A'' ''10.0.0.1'' 5001 None None 0,
      Register ''P'' ''10.0.0.9'' 5001 (Some ''alice'') None 0,
      Announce ''P'' ''notes.txt'' (Num 12) 1000]"

subsection \<open>Example inputs of the chunk engine\<close>

text \<open>A manager with 4-byte chunks and the 10-byte file \<open>abcdefghij\<close>; \<open>Xbcd\<close> stands for
  its first chunk after a change on disk.\<close>

definition small_manager :: storage_manager where
  "small_manager = \<lparr>basePath = ''./storage'', chunkSize = 4\<rparr>"

definition small_file :: buffer where
  "small_file = [0x61, 0x62, 0x63, 0x64, 0x65, 0x66, 0x67, 0x68, 0x69, 0x6a]"

definition small_fs :: file_system where
  "small_fs = \<lparr>chunk_files = [], metadata_files = [],
                other_files = [(''in.txt'', small_file)],
                writable = (\<lambda>t. True)\<rparr>"



text \<open>A 3 MiB file for the manager the constructor makes.\<close>

definition report_fs :: file_system where
  "report_fs = \<lparr>chunk_files = [], metadata_files = [],
                 other_files = [(''upload.tmp'', replicate 3145728 0)],
                 writable = (\<lambda>t. True)\<rparr>"




text \<open>The same small file system before \<open>initialize\<close> has made the directories.\<close>

definition uninitialized_fs :: file_system where
  "uninitialized_fs = small_fs\<lparr>writable := (\<lambda>t. case t of Plain p \<Rightarrow> True | _ \<Rightarrow> False)\<rparr>"

section \<open>Properties of the controller\<close>

subsection \<open>Numbers\<close>

lemma or_zero_Num [simp]: "or_zero (Num a) = Num a"
  by (simp add: or_zero_def)

lemma number_of_exact: "\<bar>x\<bar> < 2 ^ 53 \<Longrightarrow> number_of x = Num x"
proof -
  assume small: "\<bar>x\<bar> < 2 ^ 53"
  then have "nat \<bar>x\<bar> < 2 ^ 53" by simp
  then have near: "nearest (nat \<bar>x\<bar>) = nat \<bar>x\<bar>"
    by (simp add: nearest_def)
  have "(2 :: nat) ^ 53 \<le> 2 ^ 1024" by (rule power_increasing) simp_all
  with \<open>nat \<bar>x\<bar> < 2 ^ 53\<close> have "\<not> 2 ^ 1024 \<le> nat \<bar>x\<bar>" by linarith
  then show ?thesis
    unfolding number_of_def near Let_def by auto
qed

lemma js_add_exact: "\<bar>a + b\<bar> < 2 ^ 53 \<Longrightarrow> js_add (Num a) (Num b) = Num (a + b)"
  by (simp add: number_of_exact)

lemma js_sub_exact: "\<bar>a - b\<bar> < 2 ^ 53 \<Longrightarrow> js_sub (Num a) (Num b) = Num (a - b)"
  by (simp add: js_sub_def number_of_exact)

text \<open>\<open>2 ^ 53 + 1\<close> is not a Number: the sum falls back on \<open>2 ^ 53\<close>.\<close>

lemma bits_limit: "bits 9007199254740993 = 54"
  by (simp add: bits.simps)

lemma number_of_limit: "number_of 9007199254740993 = Num 9007199254740992"
  by (simp add: number_of_def nearest_def bits_limit Let_def)

lemma update_mem: "(k, v) \<in> set (AList.update k v al)"
  by (induction al) auto

lemma map_of_None_delete: "map_of al k = None \<Longrightarrow> AList.delete k al = al"
  by (simp add: map_of_eq_None_iff)

lemma list_all_update:
  "list_all P al \<Longrightarrow> P (k, v) \<Longrightarrow> list_all P (AList.update k v al)"
  by (induction al) auto

lemma list_all_delete: "list_all P al \<Longrightarrow> list_all P (AList.delete k al)"
  by (induction al) auto

lemma list_all_filter: "list_all P al \<Longrightarrow> list_all P (filter Q al)"
  by (induction al) auto

lemma list_all_map_of: "list_all P al \<Longrightarrow> map_of al k = Some v \<Longrightarrow> P (k, v)"
  by (auto simp: list_all_iff dest: map_of_SomeD)

lemma set_map_filter_iff: "y \<in> set (List.map_filter g xs) \<longleftrightarrow> (\<exists>x \<in> set xs. g x = Some y)"
  by (induction xs) (auto split: option.splits)

lemmas example_defs =
  node_A_def node_B_def node_C_def node_P_def one_node_def offline_node_def shared_files_def
  stale_announce_def two_registrations_def already_announced_def registered_with_def
  personal_upload_def new_controller_def

lemmas handler_defs =
  register_def heartbeat_def announce_def deannounce_def locations_def heartbeatChecker_def
  mark_offline_def timed_out_def isPersonalNode_def hasOnlineOwner_def locate_owner_def
  set_add_def owner_or_null_def NodeNotRegistered_def owners_of_def used_of_def
  all_have_online_owner_def no_empty_owners_def Let_def

subsection \<open>C6: unknown nodes are rejected, untracked files are a no-op\<close>

text \<open>
  C6. \<open>announce\<close> and \<open>deannounce\<close> answer \<open>Node not registered\<close> (status 400) exactly when
  the node id is absent from the registry, and then leave registry and index as they
  were; \<open>deannounce\<close> of an untracked file by a registered node succeeds with
  \<open>File not tracked\<close> and changes nothing.
\<close>

theorem announce_deannounce_NodeNotRegistered:
  "(fst (announce nid f sz now st) = NodeNotRegistered \<longleftrightarrow> map_of (registeredNodes st) nid = None) \<and>
   (fst (deannounce nid f sz st) = NodeNotRegistered \<longleftrightarrow> map_of (registeredNodes st) nid = None) \<and>
   (map_of (registeredNodes st) nid = None \<longrightarrow>
      announce nid f sz now st = (NodeNotRegistered, st) \<and>
      deannounce nid f sz st = (NodeNotRegistered, st)) \<and>
   (map_of (registeredNodes st) nid \<noteq> None \<and> map_of (fileLocations st) f = None \<longrightarrow>
      deannounce nid f sz st = (Json 200 True ''File not tracked'', st))"
  by (auto simp: announce_def deannounce_def NodeNotRegistered_def Let_def split: option.splits)

theorem announce_deannounce_NodeNotRegistered_witness:
  "map_of (registeredNodes one_node) ''Z'' = None \<and>
   announce ''Z'' ''report.pdf'' (Num 3145728) 1000 one_node = (NodeNotRegistered, one_node) \<and>
   deannounce ''Z'' ''report.pdf'' (Num 3145728) one_node = (NodeNotRegistered, one_node) \<and>
   map_of (registeredNodes one_node) ''A'' \<noteq> None \<and>
   map_of (fileLocations one_node) ''report.pdf'' = None \<and>
   deannounce ''A'' ''report.pdf'' (Num 3145728) one_node = (Json 200 True ''File not tracked'', one_node)"
proof -
  have absent: "map_of (registeredNodes one_node) ''Z'' = None"
    by (simp add: one_node_def)
  have present: "map_of (registeredNodes one_node) ''A'' \<noteq> None \<and>
      map_of (fileLocations one_node) ''report.pdf'' = None"
    by (simp add: one_node_def)
  show ?thesis
    using absent present
      announce_deannounce_NodeNotRegistered [of "''Z''" "''report.pdf''" "Num 3145728" 1000 one_node]
      announce_deannounce_NodeNotRegistered [of "''A''" "''report.pdf''" "Num 3145728" 1000 one_node]
    by blast
qed

subsection \<open>C3: locations lists online owners only\<close>

lemma locate_owner_Some:
  "locate_owner nodes oid = Some loc \<longleftrightarrow>
     (\<exists>node. map_of nodes oid = Some node \<and> online node \<and>
             loc = Location oid (address node) (port node))"
  by (auto simp: locate_owner_def split: option.splits)

lemma locations_exact:
  "\<exists>locs. locations f st = (Nodes locs, st) \<and>
     set locs = {Location oid (address node) (port node) | oid node.
                   oid \<in> set (owners_of st f) \<and> map_of (registeredNodes st) oid = Some node \<and> online node}"
proof (cases "map_of (fileLocations st) f")
  case None
  then show ?thesis by (simp add: locations_def owners_of_def)
next
  case (Some fi)
  have "set (List.map_filter (locate_owner (registeredNodes st)) (owners fi)) =
        {Location oid (address node) (port node) | oid node.
           oid \<in> set (owners fi) \<and> map_of (registeredNodes st) oid = Some node \<and> online node}"
    by (auto simp: set_map_filter_iff locate_owner_Some) blast
  with Some show ?thesis by (simp add: locations_def owners_of_def)
qed

text \<open>
  C3. For every file name and every state, \<open>locations\<close> answers with a node list and
  leaves the state (hence every owners set) as it was; every listed location is that
  of an owner of the file whose node record exists and is marked online, with the
  address and port of that record. So an owner marked offline is never listed, and it
  stays in the owners set.
\<close>

theorem locations_online_only:
  "\<exists>locs. locations f st = (Nodes locs, st) \<and>
     (\<forall>oid addr prt. Location oid addr prt \<in> set locs \<longrightarrow>
        (\<exists>node. oid \<in> set (owners_of st f) \<and> map_of (registeredNodes st) oid = Some node \<and>
                online node \<and> addr = address node \<and> prt = port node))"
proof -
  from locations_exact [of f st] obtain locs where
    "locations f st = (Nodes locs, st)" and
    "set locs = {Location oid (address node) (port node) | oid node.
                   oid \<in> set (owners_of st f) \<and> map_of (registeredNodes st) oid = Some node \<and> online node}"
    by blast
  then show ?thesis by auto
qed

theorem locations_online_only_witness:
  "locations ''notes.txt'' shared_files =
     (Nodes [Location ''A'' ''10.0.0.1'' 5001, Location ''B'' ''10.0.0.2'' 5002], shared_files) \<and>
   ''C'' \<in> set (owners_of shared_files ''notes.txt'') \<and>
   map_of (registeredNodes shared_files) ''C'' = Some node_C \<and> \<not> online node_C \<and>
   (\<exists>node. ''B'' \<in> set (owners_of shared_files ''notes.txt'') \<and>
           map_of (registeredNodes shared_files) ''B'' = Some node \<and> online node \<and>
           ''10.0.0.2'' = address node \<and> 5002 = port node)"
proof -
  have run: "locations ''notes.txt'' shared_files =
     (Nodes [Location ''A'' ''10.0.0.1'' 5001, Location ''B'' ''10.0.0.2'' 5002], shared_files)"
    by (simp add: locations_def locate_owner_def shared_files_def node_A_def node_B_def node_C_def)
  have offline: "''C'' \<in> set (owners_of shared_files ''notes.txt'') \<and>
      map_of (registeredNodes shared_files) ''C'' = Some node_C \<and> \<not> online node_C"
    by (simp add: owners_of_def shared_files_def node_C_def)
  from locations_online_only [of "''notes.txt''" shared_files] obtain locs where
    locs: "locations ''notes.txt'' shared_files = (Nodes locs, shared_files)" and
    all: "\<forall>oid addr prt. Location oid addr prt \<in> set locs \<longrightarrow>
        (\<exists>node. oid \<in> set (owners_of shared_files ''notes.txt'') \<and>
                map_of (registeredNodes shared_files) oid = Some node \<and>
                online node \<and> addr = address node \<and> prt = port node)"
    by blast
  from locs run have "Location ''B'' ''10.0.0.2'' 5002 \<in> set locs" by auto
  with all have "\<exists>node. ''B'' \<in> set (owners_of shared_files ''notes.txt'') \<and>
           map_of (registeredNodes shared_files) ''B'' = Some node \<and> online node \<and>
           ''10.0.0.2'' = address node \<and> 5002 = port node"
    by blast
  with run offline show ?thesis by blast
qed

subsection \<open>C4: a repeated announce changes nothing\<close>

text \<open>
  C4 as stated fails. After the run \<open>already_announced\<close> node \<open>A\<close> owns \<open>report.pdf\<close> and
  has 3145728 bytes in use; two more announces of that file with that size leave the
  counter at 3145728. After \<open>registered_with (2 ^ 53)\<close> the counter is \<open>2 ^ 53\<close>; two
  announces of a new file of size 1 leave it at \<open>2 ^ 53\<close>, the Number that
  \<open>2 ^ 53 + 1\<close> is rounded to.
\<close>

theorem announce_twice_counterexample:
  "used_of (run already_announced new_controller) ''A'' = Some (Num 3145728) \<and>
   used_of (snd (announce ''A'' ''report.pdf'' (Num 3145728) 3000
      (snd (announce ''A'' ''report.pdf'' (Num 3145728) 2000
         (run already_announced new_controller))))) ''A'' \<noteq> Some (Num (3145728 + 3145728)) \<and>
   used_of (run (registered_with 9007199254740992) new_controller) ''A'' =
     Some (Num 9007199254740992) \<and>
   used_of (snd (announce ''A'' ''report.pdf'' (Num 1) 3000
      (snd (announce ''A'' ''report.pdf'' (Num 1) 2000
         (run (registered_with 9007199254740992) new_controller))))) ''A'' \<noteq>
     Some (Num (9007199254740992 + 1))"
  by (simp add: already_announced_def registered_with_def new_controller_def register_def
      announce_def used_of_def set_add_def owner_or_null_def or_default_def Let_def
      number_of_exact number_of_limit)

text \<open>
  C4, amended. For a registered node \<open>nid\<close>, two announces of the same file and size in
  a row both succeed, and the second leaves the whole state as the first left it: the
  owners set of the file, which contains \<open>nid\<close>, and the used storage of \<open>nid\<close>. That
  storage is then the Number \<open>(used || 0) + size\<close>, the size added once, when \<open>nid\<close> was
  not an owner of the file before and the size is truthy, and it is what it was before
  otherwise. The Number \<open>(used || 0) + size\<close> is the exact sum when \<open>used\<close> and \<open>size\<close> are
  integers and the sum is below \<open>2 ^ 53\<close> in absolute value.
\<close>

theorem announce_idempotent:
  assumes "map_of (registeredNodes st) nid = Some node"
  shows "let st1 = snd (announce nid f sz now st); st2 = snd (announce nid f sz now' st1) in
           fst (announce nid f sz now st) = Json 200 True (''File '' @ f @ '' announced'') \<and>
           fst (announce nid f sz now' st1) = Json 200 True (''File '' @ f @ '' announced'') \<and>
           st2 = st1 \<and> owners_of st2 f = owners_of st1 f \<and> nid \<in> set (owners_of st1 f) \<and>
           used_of st2 nid =
             Some (if nid \<in> set (owners_of st f) \<or> \<not> truthy sz then used (storage node)
                   else js_add (or_zero (used (storage node))) sz) \<and>
           (\<forall>u s. used (storage node) = Num u \<and> sz = Num s \<and> nid \<notin> set (owners_of st f) \<and>
                  \<bar>u + s\<bar> < 2 ^ 53 \<longrightarrow> used_of st2 nid = Some (Num (u + s)))"
proof -
  let ?st1 = "snd (announce nid f sz now st)"
  let ?st2 = "snd (announce nid f sz now' ?st1)"
  have replies: "fst (announce nid f sz now st) = Json 200 True (''File '' @ f @ '' announced'')"
    "fst (announce nid f sz now' ?st1) = Json 200 True (''File '' @ f @ '' announced'')"
    using assms
    by (auto simp: announce_def Let_def AList.update_conv' split: option.splits)
  have same: "?st2 = ?st1"
    using assms
    by (auto simp: announce_def Let_def set_add_def AList.update_conv' AList.update_triv
        split: option.splits)
  have owner: "nid \<in> set (owners_of ?st1 f)"
    using assms
    by (auto simp: announce_def Let_def set_add_def AList.update_conv' owners_of_def
        split: option.splits)
  have used1: "used_of ?st1 nid =
      Some (if nid \<in> set (owners_of st f) \<or> \<not> truthy sz then used (storage node)
            else js_add (or_zero (used (storage node))) sz)"
    using assms
    by (auto simp: announce_def Let_def AList.update_conv' owners_of_def used_of_def
        split: option.splits)
  have exact: "used_of ?st1 nid = Some (Num (u + s))"
    if "used (storage node) = Num u" "sz = Num s" "nid \<notin> set (owners_of st f)"
       "\<bar>u + s\<bar> < 2 ^ 53" for u s
  proof -
    have "number_of (u + s) = Num (u + s)"
      using that(4) by (rule number_of_exact)
    with that used1 show ?thesis by (cases "s = 0") simp_all
  qed
  from replies same owner used1 exact show ?thesis
    unfolding Let_def by (metis (no_types, lifting))
qed

theorem announce_idempotent_witness:
  "map_of (registeredNodes one_node) ''A'' = Some node_A \<and>
   used (storage node_A) = Num 0 \<and> ''A'' \<notin> set (owners_of one_node ''report.pdf'') \<and>
   \<bar>(0 :: int) + 3145728\<bar> < 2 ^ 53 \<and>
   snd (announce ''A'' ''report.pdf'' (Num 3145728) 2000
          (snd (announce ''A'' ''report.pdf'' (Num 3145728) 1000 one_node))) =
     snd (announce ''A'' ''report.pdf'' (Num 3145728) 1000 one_node) \<and>
   used_of (snd (announce ''A'' ''report.pdf'' (Num 3145728) 2000
             (snd (announce ''A'' ''report.pdf'' (Num 3145728) 1000 one_node)))) ''A'' =
     Some (Num (0 + 3145728))"
proof -
  have reg: "map_of (registeredNodes one_node) ''A'' = Some node_A"
    by (simp add: one_node_def)
  have before: "used (storage node_A) = Num 0 \<and> ''A'' \<notin> set (owners_of one_node ''report.pdf'')"
    by (simp add: owners_of_def one_node_def node_A_def)
  have safe: "\<bar>(0 :: int) + 3145728\<bar> < 2 ^ 53"
    by simp
  from announce_idempotent [OF reg, of "''report.pdf''" "Num 3145728" 1000 2000] before safe
  have "snd (announce ''A'' ''report.pdf'' (Num 3145728) 2000
          (snd (announce ''A'' ''report.pdf'' (Num 3145728) 1000 one_node))) =
     snd (announce ''A'' ''report.pdf'' (Num 3145728) 1000 one_node) \<and>
   used_of (snd (announce ''A'' ''report.pdf'' (Num 3145728) 2000
             (snd (announce ''A'' ''report.pdf'' (Num 3145728) 1000 one_node)))) ''A'' =
     Some (Num (0 + 3145728))"
    unfolding Let_def by blast
  with reg before safe show ?thesis by blast
qed

subsection \<open>C5: announce, then deannounce\<close>

text \<open>
  C5 as stated fails. After \<open>registered_with (-5)\<close> the counter of \<open>A\<close> is \<open>-5\<close>; announce
  and deannounce of a file of size 3 leave it at 0, where \<open>Math.max(0, \<dots>)\<close> stops. After
  \<open>registered_with 1\<close> the counter is 1; announce and deannounce of a file of size
  \<open>2 ^ 53\<close> leave it at 0, since \<open>1 + 2 ^ 53\<close> is rounded to \<open>2 ^ 53\<close>.
\<close>

theorem announce_deannounce_counterexample:
  "used_of (run (registered_with (- 5)) new_controller) ''A'' = Some (Num (- 5)) \<and>
   map_of (fileLocations (run (registered_with (- 5)) new_controller)) ''report.pdf'' = None \<and>
   used_of (snd (deannounce ''A'' ''report.pdf'' (Num 3)
      (snd (announce ''A'' ''report.pdf'' (Num 3) 1000
         (run (registered_with (- 5)) new_controller))))) ''A'' = Some (Num 0) \<and>
   used_of (run (registered_with 1) new_controller) ''A'' = Some (Num 1) \<and>
   used_of (snd (deannounce ''A'' ''report.pdf'' (Num 9007199254740992)
      (snd (announce ''A'' ''report.pdf'' (Num 9007199254740992) 1000
         (run (registered_with 1) new_controller))))) ''A'' = Some (Num 0)"
  by (simp add: registered_with_def new_controller_def register_def announce_def deannounce_def
      used_of_def set_add_def owner_or_null_def or_default_def Let_def js_sub_def
      number_of_exact number_of_limit)

text \<open>
  C5, amended. For a registered node and a file that is not tracked, \<open>announce\<close> followed
  at once by \<open>deannounce\<close> with the same arguments succeeds twice and leaves the index
  as it was before the announce, with no entry for the file. The node's used storage
  is untouched when the size is falsy, and is otherwise the Number
  \<open>Math.max(0, (((used || 0) + size) || 0) - size)\<close>. When \<open>used\<close> and \<open>size\<close> are
  integers with \<open>0 \<le> used < 2 ^ 53\<close> and \<open>used + size\<close> below \<open>2 ^ 53\<close> in absolute value,
  that is the value before the announce, and the whole state is as it was.
\<close>

theorem announce_then_deannounce:
  assumes "map_of (registeredNodes st) nid = Some node"
      and "map_of (fileLocations st) f = None"
  shows "let st1 = snd (announce nid f sz now st); st2 = snd (deannounce nid f sz st1) in
           fst (announce nid f sz now st) = Json 200 True (''File '' @ f @ '' announced'') \<and>
           fst (deannounce nid f sz st1) =
             Json 200 True (''File '' @ f @ '' deannounced for '' @ nid) \<and>
           fileLocations st2 = fileLocations st \<and>
           map_of (fileLocations st2) f = None \<and>
           used_of st2 nid =
             Some (if truthy sz
                   then max_zero (js_sub (or_zero (js_add (or_zero (used (storage node))) sz)) sz)
                   else used (storage node)) \<and>
           (\<forall>u s. used (storage node) = Num u \<and> sz = Num s \<and> 0 \<le> u \<and> u < 2 ^ 53 \<and>
                  \<bar>u + s\<bar> < 2 ^ 53 \<longrightarrow>
                  used_of st2 nid = Some (Num u) \<and> st2 = st)"
proof -
  let ?st1 = "snd (announce nid f sz now st)"
  let ?st2 = "snd (deannounce nid f sz ?st1)"
  have replies: "fst (announce nid f sz now st) = Json 200 True (''File '' @ f @ '' announced'')"
    "fst (deannounce nid f sz ?st1) = Json 200 True (''File '' @ f @ '' deannounced for '' @ nid)"
    using assms
    by (auto simp: announce_def deannounce_def Let_def set_add_def AList.update_conv'
        split: option.splits)
  have index: "fileLocations ?st2 = fileLocations st"
    using assms
    by (auto simp: announce_def deannounce_def Let_def set_add_def AList.update_conv'
        AList.delete_update_same map_of_None_delete split: option.splits)
  have used2: "used_of ?st2 nid =
      Some (if truthy sz
            then max_zero (js_sub (or_zero (js_add (or_zero (used (storage node))) sz)) sz)
            else used (storage node))"
    using assms
    by (auto simp: announce_def deannounce_def Let_def set_add_def AList.update_conv'
        used_of_def split: option.splits)
  have nodes: "registeredNodes ?st2 =
      (if truthy sz
       then AList.update nid (node\<lparr>storage := (storage node)\<lparr>used :=
              max_zero (js_sub (or_zero (js_add (or_zero (used (storage node))) sz)) sz)\<rparr>\<rparr>)
              (registeredNodes st)
       else registeredNodes st)"
    using assms
    by (auto simp: announce_def deannounce_def Let_def set_add_def AList.update_conv'
        split: option.splits)
  have exact: "used_of ?st2 nid = Some (Num u) \<and> ?st2 = st"
    if "used (storage node) = Num u" "sz = Num s" "0 \<le> u" "u < 2 ^ 53" "\<bar>u + s\<bar> < 2 ^ 53"
    for u s
  proof -
    have sum: "number_of (u + s) = Num (u + s)"
      using that(5) by (rule number_of_exact)
    have diff: "number_of u = Num u"
      using that(3,4) by (intro number_of_exact) simp
    have calc: "truthy sz \<Longrightarrow>
        max_zero (js_sub (or_zero (js_add (or_zero (used (storage node))) sz)) sz) = Num u"
      using that(1,2,3) by (simp add: js_sub_def sum diff)
    have val: "(if truthy sz
            then max_zero (js_sub (or_zero (js_add (or_zero (used (storage node))) sz)) sz)
            else used (storage node)) = Num u"
      using calc that(1) by simp
    have "node\<lparr>storage := (storage node)\<lparr>used := Num u\<rparr>\<rparr> = node"
      using that(1) by simp
    then have "registeredNodes ?st2 = registeredNodes st"
      using nodes calc assms(1) by (simp add: AList.update_triv)
    with index have "?st2 = st" by simp
    with used2 val show ?thesis by simp
  qed
  have gone: "map_of (fileLocations ?st2) f = None"
    using index assms(2) by simp
  from replies index gone used2 exact show ?thesis
    unfolding Let_def by (metis (no_types, lifting))
qed

theorem announce_then_deannounce_witness:
  "map_of (registeredNodes one_node) ''A'' = Some node_A \<and>
   map_of (fileLocations one_node) ''report.pdf'' = None \<and>
   used (storage node_A) = Num 0 \<and> (0 :: int) \<le> 0 \<and> (0 :: int) < 2 ^ 53 \<and>
   \<bar>(0 :: int) + 3145728\<bar> < 2 ^ 53 \<and>
   used_of (snd (announce ''A'' ''report.pdf'' (Num 3145728) 1000 one_node)) ''A'' =
     Some (Num 3145728) \<and>
   snd (deannounce ''A'' ''report.pdf'' (Num 3145728)
          (snd (announce ''A'' ''report.pdf'' (Num 3145728) 1000 one_node))) = one_node"
proof -
  have reg: "map_of (registeredNodes one_node) ''A'' = Some node_A"
    by (simp add: one_node_def)
  have untracked: "map_of (fileLocations one_node) ''report.pdf'' = None"
    by (simp add: one_node_def)
  have counter: "used (storage node_A) = Num 0"
    by (simp add: node_A_def)
  have safe: "(0 :: int) \<le> 0 \<and> (0 :: int) < 2 ^ 53 \<and> \<bar>(0 :: int) + 3145728\<bar> < 2 ^ 53"
    by simp
  have mid: "used_of (snd (announce ''A'' ''report.pdf'' (Num 3145728) 1000 one_node)) ''A'' =
      Some (Num 3145728)"
    by (simp add: announce_def used_of_def set_add_def Let_def one_node_def node_A_def
        number_of_exact)
  from announce_then_deannounce [OF reg untracked, of "Num 3145728" 1000] counter safe
  have "snd (deannounce ''A'' ''report.pdf'' (Num 3145728)
          (snd (announce ''A'' ''report.pdf'' (Num 3145728) 1000 one_node))) = one_node"
    unfolding Let_def by blast
  with reg untracked counter safe mid show ?thesis by blast
qed

subsection \<open>C10: announce does not touch liveness\<close>

text \<open>
  C10. A successful \<open>announce\<close> by a registered node makes the node an owner of the file
  and leaves the node's \<open>online\<close> flag and \<open>lastSeen\<close> stamp as they were. So a node
  marked offline that announces an untracked file becomes its only owner and stays
  offline: the index then holds an entry without an online owner.
\<close>

theorem announce_frame:
  assumes "map_of (registeredNodes st) nid = Some node"
  shows "let st' = snd (announce nid f sz now st) in
           fst (announce nid f sz now st) = Json 200 True (''File '' @ f @ '' announced'') \<and>
           nid \<in> set (owners_of st' f) \<and>
           (\<exists>node'. map_of (registeredNodes st') nid = Some node' \<and>
               online node' = online node \<and> lastSeen node' = lastSeen node) \<and>
           (\<not> online node \<and> map_of (fileLocations st) f = None \<longrightarrow>
               owners_of st' f = [nid] \<and> \<not> all_have_online_owner st')"
proof -
  have "\<not> all_have_online_owner (snd (announce nid f sz now st))"
    if "\<not> online node" "map_of (fileLocations st) f = None"
  proof -
    let ?fi = "\<lparr>owners = [nid], uploadTime = now, size_f = or_zero sz, replicated = False\<rparr>"
    let ?st = "snd (announce nid f sz now st)"
    have "(f, ?fi) \<in> set (fileLocations ?st)"
      using assms that by (simp add: announce_def Let_def set_add_def update_mem)
    moreover have "\<not> hasOnlineOwner (registeredNodes ?st) ?fi"
      using assms that by (simp add: announce_def Let_def hasOnlineOwner_def AList.update_conv')
    ultimately show ?thesis
      by (auto simp: all_have_online_owner_def list_all_iff)
  qed
  then show ?thesis
    using assms
    by (auto simp: announce_def Let_def set_add_def AList.update_conv' owners_of_def
        split: option.splits)
qed

theorem announce_frame_witness:
  "map_of (registeredNodes offline_node) ''C'' = Some node_C \<and>
   \<not> online node_C \<and> map_of (fileLocations offline_node) ''report.pdf'' = None \<and>
   fst (announce ''C'' ''report.pdf'' (Num 3145728) 1000 offline_node) =
     Json 200 True ''File report.pdf announced'' \<and>
   owners_of (snd (announce ''C'' ''report.pdf'' (Num 3145728) 1000 offline_node)) ''report.pdf'' = [''C''] \<and>
   \<not> all_have_online_owner (snd (announce ''C'' ''report.pdf'' (Num 3145728) 1000 offline_node))"
proof -
  have reg: "map_of (registeredNodes offline_node) ''C'' = Some node_C"
    by (simp add: offline_node_def)
  have off: "\<not> online node_C \<and> map_of (fileLocations offline_node) ''report.pdf'' = None"
    by (simp add: offline_node_def node_C_def)
  from announce_frame [OF reg, of "''report.pdf''" "Num 3145728" 1000] off
  show ?thesis using reg by (simp add: Let_def)
qed

subsection \<open>C7: which nodes the sweep marks offline\<close>

lemma owners_normalised_exec: "owners_normalised st \<Longrightarrow> owners_normalised (exec op st)"
proof (cases op)
  case (Register nid addr prt own stor now)
  then show "owners_normalised st \<Longrightarrow> ?thesis"
    by (auto simp: owners_normalised_def register_def owner_or_null_def
        intro!: list_all_update split: option.splits)
next
  case (Heartbeat nid now)
  then show "owners_normalised st \<Longrightarrow> ?thesis"
    by (auto simp: owners_normalised_def heartbeat_def
        intro!: list_all_update dest: list_all_map_of split: option.splits)
next
  case (Announce nid f sz now)
  then show "owners_normalised st \<Longrightarrow> ?thesis"
    by (auto simp: owners_normalised_def announce_def Let_def
        intro!: list_all_update dest: list_all_map_of split: option.splits)
next
  case (Locations f)
  then show "owners_normalised st \<Longrightarrow> ?thesis"
    by (simp add: locations_def)
next
  case (Deannounce nid f sz)
  then show "owners_normalised st \<Longrightarrow> ?thesis"
    by (auto simp: owners_normalised_def deannounce_def Let_def
        intro!: list_all_update dest: list_all_map_of split: option.splits)
next
  case (Sweep now)
  then show "owners_normalised st \<Longrightarrow> ?thesis"
    by (auto simp: owners_normalised_def heartbeatChecker_def Let_def mark_offline_def list_all_iff
        split: if_splits)
qed

lemma owners_normalised_run: "owners_normalised st \<Longrightarrow> owners_normalised (run ops st)"
  by (induction ops arbitrary: st) (auto simp: owners_normalised_exec)

lemma owners_normalised_reachable: "owners_normalised (run ops new_controller)"
  by (rule owners_normalised_run) (simp add: owners_normalised_def new_controller_def)

lemma timed_out_normalised:
  "owner node \<noteq> Some [] \<Longrightarrow>
     timed_out now node \<longleftrightarrow> owner node = None \<and> online node \<and> now - lastSeen node > 30000"
  by (auto simp: timed_out_def isPersonalNode_def split: option.splits)

text \<open>
  C7. In every state the controller reaches from its start by registrations,
  heartbeats, announces, deannounces, location queries and sweeps, a sweep at time
  \<open>now\<close> rewrites the registry record by record: a record with \<open>owner = null\<close> that is
  online and has \<open>now - lastSeen > 30000\<close> gets \<open>online = false\<close>, every other record is
  kept as it is. In particular the record of a node with an owner is kept, however old
  its \<open>lastSeen\<close>.
\<close>

theorem sweep_marks_offline_exactly:
  "registeredNodes (heartbeatChecker now (run ops new_controller)) =
     map (\<lambda>(nid, node).
            (nid, if owner node = None \<and> online node \<and> now - lastSeen node > 30000
                  then node\<lparr>online := False\<rparr> else node))
       (registeredNodes (run ops new_controller)) \<and>
   (\<forall>(nid, node) \<in> set (registeredNodes (run ops new_controller)).
      owner node \<noteq> None \<longrightarrow>
        (nid, node) \<in> set (registeredNodes (heartbeatChecker now (run ops new_controller))))"
proof -
  let ?st = "run ops new_controller"
  have norm: "\<forall>(nid, node) \<in> set (registeredNodes ?st). owner node \<noteq> Some []"
    using owners_normalised_reachable[of ops] by (simp add: owners_normalised_def list_all_iff)
  have eq: "registeredNodes (heartbeatChecker now ?st) =
     map (\<lambda>(nid, node).
            (nid, if owner node = None \<and> online node \<and> now - lastSeen node > 30000
                  then node\<lparr>online := False\<rparr> else node))
       (registeredNodes ?st)"
    using norm by (auto simp: heartbeatChecker_def Let_def mark_offline_def timed_out_normalised)
  show ?thesis
    unfolding eq by (force simp: image_iff)
qed

theorem sweep_marks_offline_exactly_witness:
  "registeredNodes (run two_registrations new_controller) = [(''A'', node_A), (''P'', node_P)] \<and>
   owner node_P \<noteq> None \<and> 30000 < 86400000 - lastSeen node_P \<and>
   registeredNodes (heartbeatChecker 86400000 (run two_registrations new_controller)) =
     [(''A'', node_A\<lparr>online := False\<rparr>), (''P'', node_P)]"
proof -
  have reach: "registeredNodes (run two_registrations new_controller) =
      [(''A'', node_A), (''P'', node_P)]"
    by (simp add: two_registrations_def new_controller_def register_def owner_or_null_def
        or_default_def node_A_def node_P_def)
  have personal: "owner node_P \<noteq> None \<and> 30000 < 86400000 - lastSeen node_P"
    by (simp add: node_P_def)
  have "registeredNodes (heartbeatChecker 86400000 (run two_registrations new_controller)) =
     [(''A'', node_A\<lparr>online := False\<rparr>), (''P'', node_P)]"
    using sweep_marks_offline_exactly [of 86400000 two_registrations]
    unfolding reach by (simp add: node_A_def node_P_def)
  with reach personal show ?thesis by blast
qed

subsection \<open>C2: what the sweep leaves in the index\<close>

text \<open>
  C2 as stated fails: the sweep re-scans the index only when it has just marked a node
  offline. After the run \<open>stale_announce\<close> node \<open>A\<close> is offline and the only owner of
  \<open>report.pdf\<close>; the sweep at 41 s marks no node, so the entry stays.
\<close>

theorem sweep_keeps_orphan_counterexample:
  "\<not> all_have_online_owner (heartbeatChecker 41000 (run stale_announce new_controller))"
  by (simp add: stale_announce_def new_controller_def handler_defs or_default_def)

text \<open>
  C2, amended. A sweep that marks at least one node offline leaves only entries with
  an owner that is registered and online; a sweep that marks no node leaves registry
  and index as they were.
\<close>

theorem sweep_evicts_when_changed:
  "(list_ex (\<lambda>(nid, node). timed_out now node) (registeredNodes st) \<longrightarrow>
      all_have_online_owner (heartbeatChecker now st)) \<and>
   (\<not> list_ex (\<lambda>(nid, node). timed_out now node) (registeredNodes st) \<longrightarrow>
      heartbeatChecker now st = st)"
proof -
  have "mark_offline now nodes = nodes"
    if "\<not> list_ex (\<lambda>(nid, node). timed_out now node) nodes" for nodes
    using that by (induction nodes) (auto simp: mark_offline_def)
  then show ?thesis
    by (auto simp: heartbeatChecker_def Let_def all_have_online_owner_def list_all_iff)
qed

theorem sweep_evicts_when_changed_witness:
  "list_ex (\<lambda>(nid, node). timed_out 31000 node) (registeredNodes shared_files) \<and>
   all_have_online_owner (heartbeatChecker 31000 shared_files) \<and>
   map fst (fileLocations (heartbeatChecker 31000 shared_files)) = [''notes.txt''] \<and>
   \<not> list_ex (\<lambda>(nid, node). timed_out 1000 node) (registeredNodes shared_files) \<and>
   heartbeatChecker 1000 shared_files = shared_files"
proof -
  have stale: "list_ex (\<lambda>(nid, node). timed_out 31000 node) (registeredNodes shared_files)"
    by (simp add: shared_files_def timed_out_def isPersonalNode_def node_A_def)
  have fresh: "\<not> list_ex (\<lambda>(nid, node). timed_out 1000 node) (registeredNodes shared_files)"
    by (simp add: shared_files_def timed_out_def isPersonalNode_def node_A_def node_B_def node_C_def)
  have left: "map fst (fileLocations (heartbeatChecker 31000 shared_files)) = [''notes.txt'']"
    by (simp add: shared_files_def handler_defs node_A_def node_B_def node_C_def)
  from sweep_evicts_when_changed [of 31000 shared_files]
       sweep_evicts_when_changed [of 1000 shared_files] stale fresh left
  show ?thesis by blast
qed

subsection \<open>C9: no entry with an empty owners set\<close>

text \<open>Handlers that run to their end one after the other keep the index free of
  entries with an empty owners set.\<close>

lemma no_empty_owners_announce:
  "no_empty_owners st \<Longrightarrow> no_empty_owners (snd (announce nid f sz now st))"
  by (auto simp: announce_def Let_def no_empty_owners_def set_add_def
      intro!: list_all_update split: option.splits)

lemma no_empty_owners_deannounce:
  "no_empty_owners st \<Longrightarrow> no_empty_owners (snd (deannounce nid f sz st))"
  by (auto simp: deannounce_def Let_def no_empty_owners_def
      intro!: list_all_update list_all_delete split: option.splits)

lemma no_empty_owners_sweep:
  "no_empty_owners st \<Longrightarrow> no_empty_owners (heartbeatChecker now st)"
  by (auto simp: heartbeatChecker_def Let_def no_empty_owners_def intro!: list_all_filter)

lemma no_empty_owners_exec: "no_empty_owners st \<Longrightarrow> no_empty_owners (exec op st)"
  by (cases op)
     (simp_all add: no_empty_owners_announce no_empty_owners_deannounce no_empty_owners_sweep,
      auto simp: no_empty_owners_def register_def heartbeat_def locations_def split: option.splits)

lemma no_empty_owners_run: "no_empty_owners st \<Longrightarrow> no_empty_owners (run ops st)"
  by (induction ops arbitrary: st) (auto simp: no_empty_owners_exec)

lemma no_empty_owners_reachable: "no_empty_owners (run ops new_controller)"
  by (rule no_empty_owners_run) (simp add: no_empty_owners_def new_controller_def)

text \<open>The state in which \<open>deannounce\<close> waits is the state it ends in, but for the entry
  it has emptied.\<close>

lemma deannounce_after_await:
  assumes "deannounce_at_await nid f sz st = Some st'"
  shows "snd (deannounce nid f sz st) =
           (if owners_of st' f = [] then st'\<lparr>fileLocations := AList.delete f (fileLocations st')\<rparr>
            else st')"
  using assms
  by (auto simp: deannounce_at_await_def deannounce_def owners_of_def Let_def
      AList.update_conv' AList.delete_update_same split: option.splits if_splits)

text \<open>
  C9, at the failing input. After the run \<open>personal_upload\<close> the personal node \<open>P\<close> is the
  only owner of \<open>notes.txt\<close> and the index has no entry with an empty owners set. \<open>P\<close>
  deannounces the file: the handler removes \<open>P\<close> from the owners set and then waits for
  \<open>data/users.json\<close>, before the check that deletes the entry. While it waits the entry of
  \<open>notes.txt\<close> has no owner, and an announce by \<open>A\<close> that arrives then completes with that
  entry in the index.
\<close>

theorem deannounce_await_leaves_empty_entry:
  "no_empty_owners (run personal_upload new_controller) \<and>
   (\<exists>st'. deannounce_at_await ''P'' ''notes.txt'' (Num 12) (run personal_upload new_controller) =
             Some st' \<and>
          owners_of st' ''notes.txt'' = [] \<and>
          map_of (fileLocations st') ''notes.txt'' \<noteq> None \<and>
          \<not> no_empty_owners st' \<and>
          \<not> no_empty_owners (snd (announce ''A'' ''report.pdf'' (Num 3145728) 2000 st')))"
  by (simp add: personal_upload_def new_controller_def register_def announce_def
      deannounce_at_await_def isPersonalNode_def owners_of_def no_empty_owners_def
      set_add_def owner_or_null_def or_default_def js_sub_def number_of_exact Let_def)

section \<open>Properties of the chunk engine\<close>

subsection \<open>Chunk counts and chunk bounds\<close>

lemma ceil_div_le_iff: "0 < d \<Longrightarrow> ceil_div n d \<le> i \<longleftrightarrow> n \<le> i * d"
proof -
  assume d: "0 < d"
  have "ceil_div n d < Suc i \<longleftrightarrow> n + d - 1 < Suc i * d"
    unfolding ceil_div_def using d by (simp add: div_less_iff_less_mult)
  also have "\<dots> \<longleftrightarrow> n \<le> i * d"
    using d by auto
  finally show ?thesis by (simp add: less_Suc_eq_le)
qed

lemma less_ceil_div_iff: "0 < d \<Longrightarrow> i < ceil_div n d \<longleftrightarrow> i * d < n"
  using ceil_div_le_iff [of d n i] by auto

lemma ceil_div_ceiling: "0 < d \<Longrightarrow> ceil_div n d = nat \<lceil>real n / real d\<rceil>"
proof -
  assume d: "0 < d"
  let ?k = "ceil_div n d"
  have up: "real n / real d \<le> real ?k"
  proof -
    have "n \<le> ?k * d" using ceil_div_le_iff [OF d, of n ?k] by simp
    then have "real n \<le> real ?k * real d"
      by (metis of_nat_le_iff of_nat_mult)
    then show ?thesis using d by (simp add: divide_le_eq)
  qed
  have low: "real ?k - 1 < real n / real d"
  proof (cases ?k)
    case 0
    then have "n = 0" using ceil_div_le_iff [OF d, of n 0] by simp
    with 0 show ?thesis by simp
  next
    case (Suc k)
    then have "k < ?k" by simp
    then have "k * d < n" using less_ceil_div_iff [OF d] by simp
    then have "real k * real d < real n"
      by (metis of_nat_less_iff of_nat_mult)
    then show ?thesis using d Suc by (simp add: less_divide_eq)
  qed
  have "\<lceil>real n / real d\<rceil> = int ?k"
    by (rule ceiling_unique) (use up low in auto)
  then show ?thesis by simp
qed

lemma length_chunk_data:
  "length (chunk_data csize buf i) = min (i * csize + csize) (length buf) - i * csize"
  by (simp add: chunk_data_def slice_def)

lemma chunk_data_bounds:
  assumes "0 < csize" and "i < ceil_div (length buf) csize"
  shows "0 < length (chunk_data csize buf i)"
    and "length (chunk_data csize buf i) \<le> csize"
    and "i + 1 < ceil_div (length buf) csize \<Longrightarrow> length (chunk_data csize buf i) = csize"
proof -
  from assms have "i * csize < length buf" by (simp add: less_ceil_div_iff)
  then show "0 < length (chunk_data csize buf i)"
    using assms(1) by (simp add: length_chunk_data)
  show "length (chunk_data csize buf i) \<le> csize"
    by (simp add: length_chunk_data)
  assume "i + 1 < ceil_div (length buf) csize"
  then have "(i + 1) * csize < length buf" using assms(1) by (simp add: less_ceil_div_iff)
  then show "length (chunk_data csize buf i) = csize"
    by (simp add: length_chunk_data)
qed

lemma concat_chunks_take:
  "concat (map (chunk_data csize buf) [0..<k]) = take (k * csize) buf"
proof (induction k)
  case 0
  show ?case by simp
next
  case (Suc k)
  have "chunk_data csize buf k = drop (k * csize) (take (k * csize + csize) buf)"
    by (simp add: chunk_data_def slice_def min_def)
  moreover have "take (k * csize) buf = take (k * csize) (take (k * csize + csize) buf)"
    by (simp add: min_def)
  ultimately have "take (k * csize) buf @ chunk_data csize buf k = take (k * csize + csize) buf"
    by (metis append_take_drop_id)
  with Suc show ?case by (simp add: add.commute)
qed

lemma concat_chunks:
  assumes "0 < csize"
  shows "concat (map (chunk_data csize buf) [0..<ceil_div (length buf) csize]) = buf"
proof -
  have "length buf \<le> ceil_div (length buf) csize * csize"
    using ceil_div_le_iff [OF assms, of "length buf" "ceil_div (length buf) csize"] by simp
  then show ?thesis by (simp add: concat_chunks_take)
qed

subsection \<open>Chunk ids of different chunks differ\<close>

lemma digit_val_digit_char: "d < 10 \<Longrightarrow> digit_val (digit_char d) = d"
proof -
  assume "d < 10"
  then have "d \<in> {0, 1, 2, 3, 4, 5, 6, 7, 8, 9}" by auto
  then show ?thesis by (auto simp: digit_val_def digit_char_def)
qed

lemma digit_char_not_underscore: "d < 10 \<Longrightarrow> digit_char d \<noteq> CHR ''_''"
proof -
  assume "d < 10"
  then have "d \<in> {0, 1, 2, 3, 4, 5, 6, 7, 8, 9}" by auto
  then show ?thesis by (auto simp: digit_char_def)
qed

lemma nat_of_string_of_nat: "nat_of_string (string_of_nat n) = n"
proof (induction n rule: string_of_nat.induct)
  case (1 n)
  show ?case
  proof (cases "n < 10")
    case True
    then show ?thesis
      by (simp add: string_of_nat.simps [of n] nat_of_string_def digit_val_digit_char)
  next
    case False
    with 1 have "nat_of_string (string_of_nat (n div 10)) = n div 10" by simp
    with False show ?thesis
      by (simp add: string_of_nat.simps [of n] nat_of_string_def digit_val_digit_char)
  qed
qed

lemma string_of_nat_inj: "string_of_nat i = string_of_nat j \<Longrightarrow> i = j"
  by (metis nat_of_string_of_nat)

lemma underscore_notin_string_of_nat: "CHR ''_'' \<notin> set (string_of_nat n)"
proof (induction n rule: string_of_nat.induct)
  case (1 n)
  show ?case
  proof (cases "n < 10")
    case True
    then show ?thesis
      using digit_char_not_underscore [of n] by (auto simp: string_of_nat.simps [of n])
  next
    case False
    with 1 have "CHR ''_'' \<notin> set (string_of_nat (n div 10))" by simp
    with False show ?thesis
      using digit_char_not_underscore [of "n mod 10"] by (auto simp: string_of_nat.simps [of n])
  qed
qed

lemma split_at_first:
  assumes "xs @ c # ys = xs' @ c # ys'" and "c \<notin> set xs" and "c \<notin> set xs'"
  shows "xs = xs'"
proof -
  have "takeWhile (\<lambda>x. x \<noteq> c) (xs @ c # ys) = xs"
    using assms(2) by (auto simp: takeWhile_tail)
  moreover have "takeWhile (\<lambda>x. x \<noteq> c) (xs' @ c # ys') = xs'"
    using assms(3) by (auto simp: takeWhile_tail)
  ultimately show ?thesis using assms(1) by simp
qed

lemma chunk_id_inj: "chunk_id filename i h = chunk_id filename j h' \<Longrightarrow> i = j"
proof -
  assume "chunk_id filename i h = chunk_id filename j h'"
  then have "string_of_nat i @ CHR ''_'' # h = string_of_nat j @ CHR ''_'' # h'"
    by (simp add: chunk_id_def)
  then have "string_of_nat i = string_of_nat j"
    by (rule split_at_first) (rule underscore_notin_string_of_nat)+
  then show ?thesis by (rule string_of_nat_inj)
qed

subsection \<open>What \<open>splitFile\<close> writes\<close>

lemma map_of_fold_update_other:
  "key \<notin> k ` set xs \<Longrightarrow>
     map_of (fold (\<lambda>i. AList.update (k i) (v i)) xs dir) key = map_of dir key"
  by (induction xs arbitrary: dir) (auto simp: AList.update_conv')

lemma map_of_fold_update:
  "inj_on k (set xs) \<Longrightarrow> j \<in> set xs \<Longrightarrow>
     map_of (fold (\<lambda>i. AList.update (k i) (v i)) xs dir) (k j) = Some (v j)"
proof (induction xs arbitrary: dir)
  case Nil
  then show ?case by simp
next
  case (Cons x xs)
  show ?case
  proof (cases "j \<in> set xs")
    case True
    with Cons show ?thesis by simp
  next
    case False
    with Cons.prems have "j = x" by simp
    with False Cons.prems(1) have "k j \<notin> k ` set xs" by (auto simp: inj_on_def)
    then show ?thesis
      using \<open>j = x\<close> by (simp add: map_of_fold_update_other AList.update_conv')
  qed
qed

lemma split_loop_ok:
  assumes "\<forall>i \<in> set js. writable fs (Chunk (id_c (chunk_entry H csize filename buf i)))"
  shows "split_loop H csize filename buf js acc fs =
     (Inr (acc @ map (chunk_entry H csize filename buf) js),
      fs\<lparr>chunk_files :=
           fold (\<lambda>i. AList.update (id_c (chunk_entry H csize filename buf i))
                       (chunk_data csize buf i)) js (chunk_files fs)\<rparr>)"
  using assms
proof (induction js arbitrary: acc fs)
  case Nil
  then show ?case by simp
next
  case (Cons i js)
  let ?fs = "fs\<lparr>chunk_files := AList.update (id_c (chunk_entry H csize filename buf i))
                  (chunk_data csize buf i) (chunk_files fs)\<rparr>"
  from Cons.prems have head: "writable fs (Chunk (id_c (chunk_entry H csize filename buf i)))"
    and rest: "\<forall>k \<in> set js. writable ?fs (Chunk (id_c (chunk_entry H csize filename buf k)))"
    by simp_all
  have "split_loop H csize filename buf (i # js) acc fs =
      split_loop H csize filename buf js (acc @ [chunk_entry H csize filename buf i]) ?fs"
    using head by (simp add: chunk_entry_def chunk_data_def Let_def)
  also have "\<dots> = (Inr ((acc @ [chunk_entry H csize filename buf i]) @
                        map (chunk_entry H csize filename buf) js),
      ?fs\<lparr>chunk_files :=
           fold (\<lambda>i. AList.update (id_c (chunk_entry H csize filename buf i))
                       (chunk_data csize buf i)) js (chunk_files ?fs)\<rparr>)"
    by (rule Cons.IH [OF rest])
  finally show ?case by simp
qed

lemma split_loop_fail:
  assumes "\<not> (\<forall>i \<in> set js. writable fs (Chunk (id_c (chunk_entry H csize filename buf i))))"
  shows "\<exists>err fs'. split_loop H csize filename buf js acc fs = (Inl err, fs')"
  using assms
proof (induction js arbitrary: acc fs)
  case Nil
  then show ?case by simp
next
  case (Cons i js)
  let ?fs = "fs\<lparr>chunk_files := AList.update (id_c (chunk_entry H csize filename buf i))
                  (chunk_data csize buf i) (chunk_files fs)\<rparr>"
  show ?case
  proof (cases "writable fs (Chunk (id_c (chunk_entry H csize filename buf i)))")
    case False
    then show ?thesis by (simp add: chunk_entry_def chunk_data_def Let_def)
  next
    case True
    with Cons.prems
    have "\<not> (\<forall>k \<in> set js. writable ?fs (Chunk (id_c (chunk_entry H csize filename buf k))))"
      by simp
    from Cons.IH [OF this, of "acc @ [chunk_entry H csize filename buf i]"]
    show ?thesis using True by (simp add: chunk_entry_def chunk_data_def Let_def)
  qed
qed

lemma splitFile_result:
  assumes "map_of (other_files fs) filePath = Some buf"
      and "\<forall>i < ceil_div (length buf) (chunkSize mgr).
             writable fs (Chunk (id_c (chunk_entry H (chunkSize mgr) filename buf i)))"
      and "writable fs (Manifest filename)"
  shows "splitFile H mgr filePath filename now fs =
     (Inr \<lparr>filename_m = filename, originalSize = length buf, chunkSize_m = chunkSize mgr,
           chunkCount = ceil_div (length buf) (chunkSize mgr),
           chunks = map (chunk_entry H (chunkSize mgr) filename buf)
                      [0..<ceil_div (length buf) (chunkSize mgr)],
           createdAt = now, reassembled = False, reassembledAt = None\<rparr>,
      fs\<lparr>chunk_files :=
           fold (\<lambda>i. AList.update (id_c (chunk_entry H (chunkSize mgr) filename buf i))
                       (chunk_data (chunkSize mgr) buf i))
             [0..<ceil_div (length buf) (chunkSize mgr)] (chunk_files fs),
         metadata_files :=
           AList.update filename
             \<lparr>filename_m = filename, originalSize = length buf, chunkSize_m = chunkSize mgr,
              chunkCount = ceil_div (length buf) (chunkSize mgr),
              chunks = map (chunk_entry H (chunkSize mgr) filename buf)
                         [0..<ceil_div (length buf) (chunkSize mgr)],
              createdAt = now, reassembled = False, reassembledAt = None\<rparr>
             (metadata_files fs)\<rparr>)"
proof -
  from assms(2)
  have "\<forall>i \<in> set [0..<ceil_div (length buf) (chunkSize mgr)].
          writable fs (Chunk (id_c (chunk_entry H (chunkSize mgr) filename buf i)))"
    by simp
  from split_loop_ok [OF this, of "[]"] assms(1,3) show ?thesis
    by (simp add: splitFile_def Let_def)
qed

lemma splitFile_writable:
  assumes "map_of (other_files fs) filePath = Some buf"
      and "splitFile H mgr filePath filename now fs = (Inr m, fs1)"
  shows "(\<forall>i < ceil_div (length buf) (chunkSize mgr).
            writable fs (Chunk (id_c (chunk_entry H (chunkSize mgr) filename buf i)))) \<and>
         writable fs (Manifest filename)"
proof -
  let ?n = "ceil_div (length buf) (chunkSize mgr)"
  let ?all = "\<forall>i \<in> set [0..<?n].
          writable fs (Chunk (id_c (chunk_entry H (chunkSize mgr) filename buf i)))"
  have all: ?all
  proof (rule ccontr)
    assume "\<not> ?all"
    from split_loop_fail [OF this, of "[]"] obtain err fs' where
      "split_loop H (chunkSize mgr) filename buf [0..<?n] [] fs = (Inl err, fs')"
      by blast
    with assms show False by (simp add: splitFile_def Let_def)
  qed
  have "writable fs (Manifest filename)"
  proof (rule ccontr)
    assume "\<not> writable fs (Manifest filename)"
    with split_loop_ok [OF all, of "[]"] assms show False
      by (simp add: splitFile_def Let_def)
  qed
  with all show ?thesis by simp
qed

lemma chunk_file_written:
  assumes "j < n"
  shows "map_of (fold (\<lambda>i. AList.update (id_c (chunk_entry H csize filename buf i))
                        (chunk_data csize buf i)) [0..<n] dir)
           (id_c (chunk_entry H csize filename buf j)) = Some (chunk_data csize buf j)"
proof (rule map_of_fold_update)
  show "inj_on (\<lambda>i. id_c (chunk_entry H csize filename buf i)) (set [0..<n])"
    by (auto simp: inj_on_def chunk_entry_def dest: chunk_id_inj)
  show "j \<in> set [0..<n]" using assms by simp
qed

subsection \<open>What \<open>reassembleFile\<close> reads\<close>




section \<open>Evaluating MD5\<close>






















section \<open>Splitting and reassembling\<close>

subsection \<open>C8: the chunks of a file\<close>

text \<open>
  C8. Take a file of \<open>S\<close> bytes at \<open>filePath\<close> and a positive chunk size. \<open>splitFile\<close> returns
  a manifest exactly when the file system accepts the write of each chunk and of the
  manifest (otherwise the failed write is thrown), and every manifest it returns lists
  exactly \<open>\<lceil>S / chunkSize\<rceil>\<close> chunks. Chunk \<open>i\<close> is the slice of the file from byte
  \<open>i * chunkSize\<close>, the chunks in order make up the file, every chunk has \<open>chunkSize\<close>
  bytes except possibly the last, which has at least one, and the chunk is stored under
  its id. The entry of chunk \<open>i\<close> is \<open>chunk_entry\<close>: its hash is the hash of the chunk's
  bytes and its id is \<open>filename_chunk_i_hash\<close>, a function of file name, index and
  content only. A 3,145,728-byte file with 1,048,576-byte chunks has 3 chunks.
\<close>

theorem splitFile_chunks:
  assumes "map_of (other_files fs) filePath = Some fileBuffer"
      and "0 < chunkSize mgr"
  shows "((\<exists>m fs'. splitFile H mgr filePath filename now fs = (Inr m, fs')) \<longleftrightarrow>
            (\<forall>i < ceil_div (length fileBuffer) (chunkSize mgr).
               writable fs (Chunk (chunk_id filename i
                                     (H (chunk_data (chunkSize mgr) fileBuffer i))))) \<and>
            writable fs (Manifest filename)) \<and>
         (\<forall>m fs'. splitFile H mgr filePath filename now fs = (Inr m, fs') \<longrightarrow>
           map_of (metadata_files fs') filename = Some m \<and>
           chunkCount m = nat \<lceil>real (length fileBuffer) / real (chunkSize mgr)\<rceil> \<and>
           length (chunks m) = chunkCount m \<and>
           chunks m = map (chunk_entry H (chunkSize mgr) filename fileBuffer) [0..<chunkCount m] \<and>
           concat (map (chunk_data (chunkSize mgr) fileBuffer) [0..<chunkCount m]) = fileBuffer \<and>
           (\<forall>i < chunkCount m.
              index (chunks m ! i) = i \<and>
              hash (chunks m ! i) = H (chunk_data (chunkSize mgr) fileBuffer i) \<and>
              id_c (chunks m ! i) = chunk_id filename i (H (chunk_data (chunkSize mgr) fileBuffer i)) \<and>
              size_c (chunks m ! i) = length (chunk_data (chunkSize mgr) fileBuffer i) \<and>
              map_of (chunk_files fs') (id_c (chunks m ! i)) =
                Some (chunk_data (chunkSize mgr) fileBuffer i) \<and>
              0 < size_c (chunks m ! i) \<and> size_c (chunks m ! i) \<le> chunkSize mgr \<and>
              (i + 1 < chunkCount m \<longrightarrow> size_c (chunks m ! i) = chunkSize mgr)) \<and>
           (chunkSize mgr = 1048576 \<and> length fileBuffer = 3145728 \<longrightarrow> chunkCount m = 3))"
proof -
  let ?cs = "chunkSize mgr"
  let ?n = "ceil_div (length fileBuffer) ?cs"
  let ?entry = "chunk_entry H ?cs filename fileBuffer"
  let ?m = "\<lparr>filename_m = filename, originalSize = length fileBuffer, chunkSize_m = ?cs,
             chunkCount = ?n, chunks = map ?entry [0..<?n],
             createdAt = now, reassembled = False, reassembledAt = None\<rparr>"
  let ?dir = "fold (\<lambda>i. AList.update (id_c (?entry i)) (chunk_data ?cs fileBuffer i)) [0..<?n]
                (chunk_files fs)"
  let ?fs = "fs\<lparr>chunk_files := ?dir,
                 metadata_files := AList.update filename ?m (metadata_files fs)\<rparr>"
  let ?W = "(\<forall>i < ?n. writable fs (Chunk (chunk_id filename i (H (chunk_data ?cs fileBuffer i))))) \<and>
            writable fs (Manifest filename)"
  have id: "id_c (?entry i) = chunk_id filename i (H (chunk_data ?cs fileBuffer i))" for i
    by (simp add: chunk_entry_def)
  have result: "splitFile H mgr filePath filename now fs = (Inr ?m, ?fs)" if ?W
    using that by (intro splitFile_result [OF assms(1)]) (simp_all add: id)
  have accepted: ?W if "splitFile H mgr filePath filename now fs = (Inr m, fs')" for m fs'
    using splitFile_writable [OF assms(1) that] by (simp add: id)
  have succeeds: "(\<exists>m fs'. splitFile H mgr filePath filename now fs = (Inr m, fs')) \<longleftrightarrow> ?W"
    using result accepted by blast
  have meta: "map_of (metadata_files ?fs) filename = Some ?m"
    by (simp add: AList.update_conv')
  have count: "chunkCount ?m = nat \<lceil>real (length fileBuffer) / real ?cs\<rceil>"
    using ceil_div_ceiling [OF assms(2)] by simp
  have cover: "concat (map (chunk_data ?cs fileBuffer) [0..<chunkCount ?m]) = fileBuffer"
    using concat_chunks [OF assms(2)] by simp
  have each: "index (chunks ?m ! i) = i \<and>
      hash (chunks ?m ! i) = H (chunk_data ?cs fileBuffer i) \<and>
      id_c (chunks ?m ! i) = chunk_id filename i (H (chunk_data ?cs fileBuffer i)) \<and>
      size_c (chunks ?m ! i) = length (chunk_data ?cs fileBuffer i) \<and>
      map_of (chunk_files ?fs) (id_c (chunks ?m ! i)) = Some (chunk_data ?cs fileBuffer i) \<and>
      0 < size_c (chunks ?m ! i) \<and> size_c (chunks ?m ! i) \<le> ?cs \<and>
      (i + 1 < chunkCount ?m \<longrightarrow> size_c (chunks ?m ! i) = ?cs)"
    if "i < chunkCount ?m" for i
  proof -
    from that have i: "i < ?n" by simp
    then have nth: "chunks ?m ! i = ?entry i" by simp
    have stored: "map_of ?dir (id_c (?entry i)) = Some (chunk_data ?cs fileBuffer i)"
      by (rule chunk_file_written [OF i])
    show ?thesis
      unfolding nth using stored chunk_data_bounds [OF assms(2) i]
      by (simp add: chunk_entry_def)
  qed
  have three: "chunkSize mgr = 1048576 \<and> length fileBuffer = 3145728 \<longrightarrow> chunkCount ?m = 3"
    by (simp add: ceil_div_def)
  have len: "length (chunks ?m) = chunkCount ?m"
    and form: "chunks ?m = map ?entry [0..<chunkCount ?m]"
    by simp_all
  from each have all: "\<forall>i < chunkCount ?m.
      index (chunks ?m ! i) = i \<and>
      hash (chunks ?m ! i) = H (chunk_data ?cs fileBuffer i) \<and>
      id_c (chunks ?m ! i) = chunk_id filename i (H (chunk_data ?cs fileBuffer i)) \<and>
      size_c (chunks ?m ! i) = length (chunk_data ?cs fileBuffer i) \<and>
      map_of (chunk_files ?fs) (id_c (chunks ?m ! i)) = Some (chunk_data ?cs fileBuffer i) \<and>
      0 < size_c (chunks ?m ! i) \<and> size_c (chunks ?m ! i) \<le> ?cs \<and>
      (i + 1 < chunkCount ?m \<longrightarrow> size_c (chunks ?m ! i) = ?cs)"
    by blast
  have returned: "map_of (metadata_files fs') filename = Some m \<and>
           chunkCount m = nat \<lceil>real (length fileBuffer) / real ?cs\<rceil> \<and>
           length (chunks m) = chunkCount m \<and>
           chunks m = map ?entry [0..<chunkCount m] \<and>
           concat (map (chunk_data ?cs fileBuffer) [0..<chunkCount m]) = fileBuffer \<and>
           (\<forall>i < chunkCount m.
              index (chunks m ! i) = i \<and>
              hash (chunks m ! i) = H (chunk_data ?cs fileBuffer i) \<and>
              id_c (chunks m ! i) = chunk_id filename i (H (chunk_data ?cs fileBuffer i)) \<and>
              size_c (chunks m ! i) = length (chunk_data ?cs fileBuffer i) \<and>
              map_of (chunk_files fs') (id_c (chunks m ! i)) = Some (chunk_data ?cs fileBuffer i) \<and>
              0 < size_c (chunks m ! i) \<and> size_c (chunks m ! i) \<le> ?cs \<and>
              (i + 1 < chunkCount m \<longrightarrow> size_c (chunks m ! i) = ?cs)) \<and>
           (?cs = 1048576 \<and> length fileBuffer = 3145728 \<longrightarrow> chunkCount m = 3)"
    if run: "splitFile H mgr filePath filename now fs = (Inr m, fs')" for m fs'
  proof -
    from result [OF accepted [OF run]] run have m: "m = ?m" and fs': "fs' = ?fs"
      by auto
    from meta count len form cover all three show ?thesis
      unfolding m fs' by blast
  qed
  from succeeds returned show ?thesis by blast
qed

lemma string_of_nat_2: "string_of_nat 2 = ''2''"
  by (simp add: string_of_nat.simps digit_char_def)

theorem splitFile_chunks_witness:
  "map_of (other_files small_fs) ''in.txt'' = Some small_file \<and> 0 < chunkSize small_manager \<and>
   (\<exists>m fs'. splitFile md5_hex small_manager ''in.txt'' ''notes.txt'' 0 small_fs = (Inr m, fs') \<and>
      chunkCount m = 3 \<and> size_c (chunks m ! 0) = 4 \<and> size_c (chunks m ! 2) = 2 \<and>
      id_c (chunks m ! 2) = ''notes.txt_chunk_2_'' @ md5_hex [0x69, 0x6a] \<and>
      map_of (chunk_files fs') (id_c (chunks m ! 2)) = Some [0x69, 0x6a]) \<and>
   map_of (other_files uninitialized_fs) ''in.txt'' = Some small_file \<and>
   \<not> writable uninitialized_fs (Manifest ''notes.txt'') \<and>
   (\<nexists>m fs'. splitFile md5_hex small_manager ''in.txt'' ''notes.txt'' 0 uninitialized_fs =
               (Inr m, fs')) \<and>
   map_of (other_files report_fs) ''upload.tmp'' = Some (replicate 3145728 0) \<and>
   chunkSize (new_StorageManager ''./storage'') = 1048576 \<and>
   length (replicate 3145728 (0 :: 8 word)) = 3145728 \<and>
   (\<exists>m fs'. splitFile md5_hex (new_StorageManager ''./storage'') ''upload.tmp'' ''report.pdf'' 0
               report_fs = (Inr m, fs') \<and> chunkCount m = 3)"
proof -
  have infile: "map_of (other_files small_fs) ''in.txt'' = Some small_file"
    by (simp add: small_fs_def)
  have pos: "0 < chunkSize small_manager"
    by (simp add: small_manager_def)
  have len: "length small_file = 10" and cs: "chunkSize small_manager = 4"
    by (simp_all add: small_file_def small_manager_def)
  have c0: "length (chunk_data 4 small_file 0) = 4"
    and c2: "chunk_data 4 small_file 2 = [0x69, 0x6a]"
    by (simp_all add: chunk_data_def slice_def small_file_def)
  note small = splitFile_chunks [OF infile pos, of md5_hex "''notes.txt''" 0]
  have "(\<forall>i < ceil_div (length small_file) (chunkSize small_manager).
           writable small_fs (Chunk (chunk_id ''notes.txt'' i
              (md5_hex (chunk_data (chunkSize small_manager) small_file i))))) \<and>
        writable small_fs (Manifest ''notes.txt'')"
    by (simp add: small_fs_def)
  with small [THEN conjunct1] obtain m fs' where
    run: "splitFile md5_hex small_manager ''in.txt'' ''notes.txt'' 0 small_fs = (Inr m, fs')"
    by blast
  from small [THEN conjunct2, rule_format, OF run] have
    count: "chunkCount m = nat \<lceil>real (length small_file) / real (chunkSize small_manager)\<rceil>" and
    each: "\<forall>i < chunkCount m.
              index (chunks m ! i) = i \<and>
              hash (chunks m ! i) = md5_hex (chunk_data (chunkSize small_manager) small_file i) \<and>
              id_c (chunks m ! i) =
                chunk_id ''notes.txt'' i (md5_hex (chunk_data (chunkSize small_manager) small_file i)) \<and>
              size_c (chunks m ! i) = length (chunk_data (chunkSize small_manager) small_file i) \<and>
              map_of (chunk_files fs') (id_c (chunks m ! i)) =
                Some (chunk_data (chunkSize small_manager) small_file i) \<and>
              0 < size_c (chunks m ! i) \<and> size_c (chunks m ! i) \<le> chunkSize small_manager \<and>
              (i + 1 < chunkCount m \<longrightarrow> size_c (chunks m ! i) = chunkSize small_manager)"
    by blast+
  from count have three: "chunkCount m = 3" by (simp add: len cs)
  have lt0: "0 < chunkCount m" and lt2: "2 < chunkCount m"
    using three by simp_all
  note first = each [rule_format, OF lt0] and last = each [rule_format, OF lt2]
  from first have "size_c (chunks m ! 0) = length (chunk_data (chunkSize small_manager) small_file 0)"
    by blast
  then have size0: "size_c (chunks m ! 0) = 4"
    by (simp add: cs c0)
  from last have "size_c (chunks m ! 2) = length (chunk_data (chunkSize small_manager) small_file 2)"
    by blast
  then have size2: "size_c (chunks m ! 2) = 2"
    by (simp add: cs c2)
  from last have "id_c (chunks m ! 2) =
      chunk_id ''notes.txt'' 2 (md5_hex (chunk_data (chunkSize small_manager) small_file 2))"
    by blast
  then have id2: "id_c (chunks m ! 2) = ''notes.txt_chunk_2_'' @ md5_hex [0x69, 0x6a]"
    by (simp add: cs c2 chunk_id_def string_of_nat_2)
  from last have "map_of (chunk_files fs') (id_c (chunks m ! 2)) =
      Some (chunk_data (chunkSize small_manager) small_file 2)"
    by blast
  then have stored2: "map_of (chunk_files fs') (id_c (chunks m ! 2)) = Some [0x69, 0x6a]"
    by (simp add: cs c2)
  from run three size0 size2 id2 stored2 have small_ok: "\<exists>m fs'.
      splitFile md5_hex small_manager ''in.txt'' ''notes.txt'' 0 small_fs = (Inr m, fs') \<and>
      chunkCount m = 3 \<and> size_c (chunks m ! 0) = 4 \<and> size_c (chunks m ! 2) = 2 \<and>
      id_c (chunks m ! 2) = ''notes.txt_chunk_2_'' @ md5_hex [0x69, 0x6a] \<and>
      map_of (chunk_files fs') (id_c (chunks m ! 2)) = Some [0x69, 0x6a]"
    by blast
  have raw_file: "map_of (other_files uninitialized_fs) ''in.txt'' = Some small_file"
    by (simp add: uninitialized_fs_def small_fs_def)
  have closed: "\<not> writable uninitialized_fs (Manifest ''notes.txt'')"
    by (simp add: uninitialized_fs_def)
  from splitFile_chunks [OF raw_file pos, of md5_hex "''notes.txt''" 0, THEN conjunct1] closed
  have raw: "\<nexists>m fs'. splitFile md5_hex small_manager ''in.txt'' ''notes.txt'' 0 uninitialized_fs =
               (Inr m, fs')"
    by blast
  have big_file: "map_of (other_files report_fs) ''upload.tmp'' = Some (replicate 3145728 0)"
    by (simp add: report_fs_def)
  have mib: "chunkSize (new_StorageManager ''./storage'') = 1048576"
    by (simp add: new_StorageManager_def)
  have big_len: "length (replicate 3145728 (0 :: 8 word)) = 3145728"
    by simp
  have big_pos: "0 < chunkSize (new_StorageManager ''./storage'')"
    by (simp add: mib)
  note report = splitFile_chunks [OF big_file big_pos, of md5_hex "''report.pdf''" 0]
  have "(\<forall>i < ceil_div (length (replicate 3145728 (0 :: 8 word)))
                 (chunkSize (new_StorageManager ''./storage'')).
           writable report_fs (Chunk (chunk_id ''report.pdf'' i
              (md5_hex (chunk_data (chunkSize (new_StorageManager ''./storage''))
                          (replicate 3145728 0) i))))) \<and>
        writable report_fs (Manifest ''report.pdf'')"
    by (simp add: report_fs_def)
  with report [THEN conjunct1] obtain M FS where
    big_run: "splitFile md5_hex (new_StorageManager ''./storage'') ''upload.tmp'' ''report.pdf'' 0
        report_fs = (Inr M, FS)"
    by blast
  from report [THEN conjunct2, rule_format, OF big_run] mib big_len
  have "chunkCount M = 3"
    by blast
  with big_run have big: "\<exists>m fs'.
      splitFile md5_hex (new_StorageManager ''./storage'') ''upload.tmp'' ''report.pdf'' 0
        report_fs = (Inr m, fs') \<and> chunkCount m = 3"
    by blast
  from infile pos small_ok raw_file closed raw big_file mib big_len big show ?thesis by blast
qed

subsection \<open>C1: the round trip, and chunks changed on disk\<close>







end
